theory Spec2Isabelle
  imports Main "HOL-Library.Sublist"
begin

section \<open>Chemist 4 U: the cart, search and billing core of chemist4u.py\<close>

text \<open>
  The development embeds the store, cart, search and billing functions of
  \<^verbatim>\<open>src/app/src/chemist4u.py\<close>. Screen output, the loading animation,
  \<^verbatim>\<open>time.sleep\<close> and the instructions file are left out; everything that reads or
  writes the store, the cart or a bill, and every branch that decides what is written, is
  kept.

  Modelling decisions:
  \<^item> A CSV file is the list of its rows, each row the list of its cells, as
    \<^verbatim>\<open>csv.reader\<close> yields them and \<^verbatim>\<open>csv.writer\<close> takes them; quoting and line
    ends are the csv module's business. A blank line is the row \<open>[]\<close>.
  \<^item> A Python value that is either a \<^verbatim>\<open>str\<close> or \<^verbatim>\<open>None\<close> is a \<open>string option\<close>.
  \<^item> Python's \<^verbatim>\<open>int\<close> is \<open>int\<close>. \<^verbatim>\<open>str\<close> is \<open>string\<close>; characters are
    bytes, and \<^verbatim>\<open>strip\<close>, \<^verbatim>\<open>lower\<close> and \<^verbatim>\<open>int\<close> are modelled on ASCII.
  \<^item> Python's \<^verbatim>\<open>float\<close> is a type parameter \<open>'f\<close>; the five float primitives the
    program uses are the fields of a record \<open>float_ops\<close> that every function takes.
    Nothing is assumed about them.
  \<^item> The files are a record; a function that writes returns the new record.
  \<^item> Text typed by the user and the random tracking identifier are arguments.
\<close>

subsection \<open>Strings and integers\<close>

text \<open>Whitespace as \<^verbatim>\<open>str.strip()\<close> and \<^verbatim>\<open>int()\<close> see it in the ASCII range.\<close>

definition is_space :: "char \<Rightarrow> bool" where
  "is_space c = ((of_char c :: nat) \<in> {9, 10, 11, 12, 13, 28, 29, 30, 31, 32})"

definition py_strip :: "string \<Rightarrow> string" where
  "py_strip s = rev (dropWhile is_space (rev (dropWhile is_space s)))"

definition lower_char :: "char \<Rightarrow> char" where
  "lower_char c =
     (let n = (of_char c :: nat) in if 65 \<le> n \<and> n \<le> 90 then char_of (n + 32) else c)"

definition py_lower :: "string \<Rightarrow> string" where
  "py_lower s = map lower_char s"

text \<open>\<^verbatim>\<open>needle in hay\<close> on strings.\<close>

fun py_in :: "string \<Rightarrow> string \<Rightarrow> bool" where
  "py_in needle [] = (needle = [])"
| "py_in needle (c # cs) = (take (length needle) (c # cs) = needle \<or> py_in needle cs)"

text \<open>\<^verbatim>\<open>str(n)\<close> for an integer.\<close>

definition digit_char :: "nat \<Rightarrow> char" where
  "digit_char d = char_of (48 + d)"

fun str_nat :: "nat \<Rightarrow> string" where
  "str_nat n = (if n < 10 then [digit_char n] else str_nat (n div 10) @ [digit_char (n mod 10)])"

declare str_nat.simps [simp del]

definition str_int :: "int \<Rightarrow> string" where
  "str_int i = (if i < 0 then CHR ''-'' # str_nat (nat (- i)) else str_nat (nat i))"

text \<open>
  \<^verbatim>\<open>int(s)\<close> for a string: surrounding whitespace is dropped, one sign is allowed, and
  the digits may be grouped by single underscores between digits. \<open>None\<close> stands for
  \<^verbatim>\<open>ValueError\<close>.
\<close>

definition is_digit :: "char \<Rightarrow> bool" where
  "is_digit c = (48 \<le> (of_char c :: nat) \<and> (of_char c :: nat) \<le> 57)"

definition digit_val :: "char \<Rightarrow> nat" where
  "digit_val c = of_char c - 48"

fun scan_digits :: "nat \<Rightarrow> char \<Rightarrow> string \<Rightarrow> nat option" where
  "scan_digits acc prev [] = (if prev = CHR ''_'' then None else Some acc)"
| "scan_digits acc prev (c # cs) =
     (if c = CHR ''_'' then (if prev = CHR ''_'' then None else scan_digits acc c cs)
      else if is_digit c then scan_digits (10 * acc + digit_val c) c cs
      else None)"

definition parse_digits :: "string \<Rightarrow> nat option" where
  "parse_digits s =
     (case s of
        [] \<Rightarrow> None
      | c # cs \<Rightarrow> if is_digit c then scan_digits (digit_val c) c cs else None)"

definition py_int :: "string \<Rightarrow> int option" where
  "py_int s =
     (case py_strip s of
        [] \<Rightarrow> None
      | c # cs \<Rightarrow>
          if c = CHR ''-'' then map_option (\<lambda>n. - int n) (parse_digits cs)
          else if c = CHR ''+'' then map_option int (parse_digits cs)
          else map_option int (parse_digits (c # cs)))"

text \<open>Padding as the format specifications \<^verbatim>\<open>:30\<close> (text) and \<^verbatim>\<open>:>3\<close> produce it.\<close>

definition ljust :: "nat \<Rightarrow> string \<Rightarrow> string" where
  "ljust w s = s @ replicate (w - length s) (CHR '' '')"

definition rjust :: "nat \<Rightarrow> string \<Rightarrow> string" where
  "rjust w s = replicate (w - length s) (CHR '' '') @ s"

subsection \<open>Floats, medicines and files\<close>

text \<open>
  The float primitives of the program: \<^verbatim>\<open>float(s)\<close> (\<open>None\<close> for \<^verbatim>\<open>ValueError\<close>),
  the literal \<^verbatim>\<open>0.0\<close>, the format \<^verbatim>\<open>.2f\<close>, \<^verbatim>\<open>x * n\<close> for an integer \<open>n\<close>
  (\<open>None\<close> for \<^verbatim>\<open>OverflowError\<close>, when \<open>n\<close> has no float) and \<^verbatim>\<open>sum\<close> over
  floats.
\<close>

record 'f float_ops =
  float_of_str :: "string \<Rightarrow> 'f option"
  float_zero :: 'f
  format_2f :: "'f \<Rightarrow> string"
  float_mul_int :: "'f \<Rightarrow> int \<Rightarrow> 'f option"
  float_sum :: "'f list \<Rightarrow> 'f"

record 'f medicine =
  med_id :: int
  name :: "string option"
  intensity :: "string option"
  disease :: "string option"
  cost :: 'f
  quantity :: int

text \<open>The constructor \<^verbatim>\<open>Medicine.__init__\<close>: an identifier or a cost that does not parse
  becomes \<open>0\<close>, and the quantity starts at \<open>1\<close>.\<close>

definition Medicine ::
  "'f float_ops \<Rightarrow> string option \<Rightarrow> string option \<Rightarrow> string option \<Rightarrow> string option \<Rightarrow>
   string option \<Rightarrow> 'f medicine" where
  "Medicine F id_str nm inten dis cst =
     \<lparr> med_id = (case id_str of None \<Rightarrow> 0
                 | Some s \<Rightarrow> (case py_int s of None \<Rightarrow> 0 | Some i \<Rightarrow> i)),
       name = nm,
       intensity = inten,
       disease = dis,
       cost = (case cst of None \<Rightarrow> float_zero F
               | Some s \<Rightarrow> (case float_of_str F s of None \<Rightarrow> float_zero F | Some x \<Rightarrow> x)),
       quantity = 1 \<rparr>"

type_synonym csv = "string list list"

text \<open>\<open>store_file\<close> is data/store.csv, \<open>cart_file\<close> is data/cart.csv (\<open>None\<close>: the file
  does not exist), \<open>bill_files\<close> the files under output/, each a path and its lines.\<close>

record files =
  store_file :: "csv option"
  cart_file :: "csv option"
  bill_files :: "(string \<times> string list) list"

definition write_file :: "string \<Rightarrow> string list \<Rightarrow> (string \<times> string list) list \<Rightarrow>
    (string \<times> string list) list" where
  "write_file path ls fl = (path, ls) # filter (\<lambda>e. fst e \<noteq> path) fl"

text \<open>
  \<^verbatim>\<open>csv.DictReader\<close>: the first row gives the field names; blank rows are skipped; a
  row becomes \<^verbatim>\<open>dict(zip(fieldnames, row))\<close>, and the field names beyond a short row
  are set to \<^verbatim>\<open>None\<close>. A later duplicate of a field name wins.
\<close>

type_synonym csv_dict = "string \<rightharpoonup> string option"

definition dict_row :: "string list \<Rightarrow> string list \<Rightarrow> csv_dict" where
  "dict_row fieldnames row =
     map_of (rev (zip fieldnames
                      (map Some row @ replicate (length fieldnames - length row) None)))"

definition DictReader :: "csv \<Rightarrow> csv_dict list" where
  "DictReader f =
     (case f of
        [] \<Rightarrow> []
      | fieldnames # rows \<Rightarrow> map (dict_row fieldnames) (filter (\<lambda>r. r \<noteq> []) rows))"

text \<open>\<^verbatim>\<open>row.get(k, d)\<close> with a string default, and the test \<^verbatim>\<open>not row.get("id")\<close>
  negated.\<close>

definition get_default :: "csv_dict \<Rightarrow> string \<Rightarrow> string \<Rightarrow> string option" where
  "get_default row k d = (case row k of None \<Rightarrow> Some d | Some v \<Rightarrow> v)"

definition has_id :: "csv_dict \<Rightarrow> bool" where
  "has_id row = (case row ''id'' of Some (Some s) \<Rightarrow> s \<noteq> [] | _ \<Rightarrow> False)"

definition row_medicine :: "'f float_ops \<Rightarrow> csv_dict \<Rightarrow> 'f medicine" where
  "row_medicine F row =
     Medicine F (get_default row ''id'' ''0'') (get_default row ''name'' [])
       (get_default row ''intensity'' []) (get_default row ''disease'' [])
       (get_default row ''cost'' ''0'')"

subsection \<open>Store and cart operations\<close>

definition sample_store :: csv where
  "sample_store =
     [[''id'', ''name'', ''intensity'', ''disease'', ''cost''],
      [''101'', ''Paracetamol'', ''500mg'', ''Fever'', ''20.00''],
      [''102'', ''Dolo'', ''650mg'', ''Fever'', ''30.00''],
      [''103'', ''Azithromycin'', ''250mg'', ''Infection'', ''85.00''],
      [''104'', ''Amoxicillin'', ''500mg'', ''Infection'', ''60.00''],
      [''105'', ''Cetirizine'', ''10mg'', ''Allergy'', ''30.00''],
      [''106'', ''Omeprazole'', ''20mg'', ''Acidity'', ''50.00''],
      [''107'', ''Multivitamin'', ''1tab'', ''General Health'', ''25.00''],
      [''108'', ''Ibuprofen'', ''400mg'', ''Pain Relief'', ''45.00''],
      [''109'', ''Cetraxal'', ''10mg'', ''Ear Infection'', ''120.00'']]"

definition cart_header :: "string list" where
  "cart_header = [''id'', ''name'', ''intensity'', ''disease'', ''cost'', ''quantity'']"

definition ensure_folders_and_files :: "files \<Rightarrow> files" where
  "ensure_folders_and_files fs =
     (let fs1 = (if store_file fs = None then fs\<lparr>store_file := Some sample_store\<rparr> else fs)
      in if cart_file fs1 = None then fs1\<lparr>cart_file := Some [cart_header]\<rparr> else fs1)"

definition load_store :: "'f float_ops \<Rightarrow> files \<Rightarrow> 'f medicine list" where
  "load_store F fs =
     (case store_file fs of
        None \<Rightarrow> []
      | Some f \<Rightarrow> map (row_medicine F) (filter has_id (DictReader f)))"

text \<open>\<^verbatim>\<open>int(row.get("quantity", 1))\<close>, with \<open>1\<close> where it raises.\<close>

definition row_quantity :: "csv_dict \<Rightarrow> int" where
  "row_quantity row =
     (case row ''quantity'' of
        None \<Rightarrow> 1
      | Some None \<Rightarrow> 1
      | Some (Some s) \<Rightarrow> (case py_int s of None \<Rightarrow> 1 | Some q \<Rightarrow> q))"

definition read_cart :: "'f float_ops \<Rightarrow> files \<Rightarrow> 'f medicine list" where
  "read_cart F fs =
     (case cart_file fs of
        None \<Rightarrow> []
      | Some f \<Rightarrow>
          map (\<lambda>row. (row_medicine F row)\<lparr>quantity := row_quantity row\<rparr>)
              (filter has_id (DictReader f)))"

text \<open>A cell as \<^verbatim>\<open>csv.writer\<close> writes it: \<^verbatim>\<open>None\<close> is the empty string.\<close>

definition csv_cell :: "string option \<Rightarrow> string" where
  "csv_cell v = (case v of None \<Rightarrow> [] | Some s \<Rightarrow> s)"

definition cart_row :: "'f float_ops \<Rightarrow> 'f medicine \<Rightarrow> string list" where
  "cart_row F it =
     [str_int (med_id it), csv_cell (name it), csv_cell (intensity it), csv_cell (disease it),
      format_2f F (cost it), str_int (quantity it)]"

definition write_cart_from_items :: "'f float_ops \<Rightarrow> 'f medicine list \<Rightarrow> files \<Rightarrow> files" where
  "write_cart_from_items F items fs = fs\<lparr>cart_file := Some (cart_header # map (cart_row F) items)\<rparr>"

definition clear_cart :: "files \<Rightarrow> files" where
  "clear_cart fs = fs\<lparr>cart_file := Some [cart_header]\<rparr>"

text \<open>The position of the first item with a given identifier: the object that
  \<^verbatim>\<open>for it in items: if it.id == ...\<close> and \<^verbatim>\<open>next((it for it in items if ...), None)\<close>
  stop at.\<close>

fun index_of_id :: "int \<Rightarrow> 'f medicine list \<Rightarrow> nat option" where
  "index_of_id i [] = None"
| "index_of_id i (it # items) =
     (if med_id it = i then Some 0 else map_option Suc (index_of_id i items))"

definition append_to_cart :: "'f float_ops \<Rightarrow> files \<Rightarrow> 'f medicine \<Rightarrow> int \<Rightarrow> files" where
  "append_to_cart F fs med qty =
     (if qty \<le> 0 then fs
      else let items = read_cart F fs in
        write_cart_from_items F
          (case index_of_id (med_id med) items of
             Some k \<Rightarrow> items[k := (items ! k)\<lparr>quantity := quantity (items ! k) + qty\<rparr>]
           | None \<Rightarrow> items @ [med\<lparr>quantity := qty\<rparr>])
          fs)"

subsection \<open>Deleting from the cart\<close>

text \<open>What one pass through the loop of \<^verbatim>\<open>delete_from_cart\<close> ends with, named after
  what it prints.\<close>

datatype delete_event =
    Del_invalid_input
  | Del_cancel
  | Del_id_not_found
  | Del_invalid_number
  | Del_removed_all
  | Del_removed_some

text \<open>Lines 260 to 281: look the identifier up, ask for the amount, remove or reduce,
  and write the cart. \<open>qty_in\<close> is what the user types at the amount prompt.\<close>

definition remove_quantity ::
  "'f float_ops \<Rightarrow> files \<Rightarrow> 'f medicine list \<Rightarrow> int \<Rightarrow> string \<Rightarrow>
   delete_event \<times> 'f medicine list \<times> files" where
  "remove_quantity F fs items id_to_del qty_in =
     (case index_of_id id_to_del items of
        None \<Rightarrow> (Del_id_not_found, items, fs)
      | Some k \<Rightarrow>
          (case py_int (py_strip qty_in) of
             None \<Rightarrow> (Del_invalid_number, items, fs)
           | Some qty_del \<Rightarrow>
               if qty_del \<ge> quantity (items ! k) then
                 (let items' = take k items @ drop (Suc k) items
                  in (Del_removed_all, items', write_cart_from_items F items' fs))
               else
                 (let items' = items[k := (items ! k)\<lparr>quantity := quantity (items ! k) - qty_del\<rparr>]
                  in (Del_removed_some, items', write_cart_from_items F items' fs))))"

text \<open>The whole loop body: the identifier prompt first.\<close>

definition delete_request ::
  "'f float_ops \<Rightarrow> files \<Rightarrow> 'f medicine list \<Rightarrow> string \<Rightarrow> string \<Rightarrow>
   delete_event \<times> 'f medicine list \<times> files" where
  "delete_request F fs items id_in qty_in =
     (case py_int (py_strip id_in) of
        None \<Rightarrow> (Del_invalid_input, items, fs)
      | Some id_to_del \<Rightarrow>
          if id_to_del = 0 then (Del_cancel, items, fs)
          else remove_quantity F fs items id_to_del qty_in)"

text \<open>The loop, over the user's answers: for each pass the identifier, the amount and
  the answer to "Delete another item?". The list of items stays in memory between passes.
  The loop ends when the answers do.\<close>

fun delete_loop ::
  "'f float_ops \<Rightarrow> files \<Rightarrow> 'f medicine list \<Rightarrow> (string \<times> string \<times> string) list \<Rightarrow> files" where
  "delete_loop F fs items [] = fs"
| "delete_loop F fs items ((id_in, qty_in, again) # rest) =
     (case delete_request F fs items id_in qty_in of
        (ev, items', fs') \<Rightarrow>
          if ev = Del_cancel then fs
          else if ev = Del_removed_all \<or> ev = Del_removed_some then
            (if items' = [] then fs'
             else if py_lower (py_strip again) \<noteq> ''y'' then fs'
             else delete_loop F fs' items' rest)
          else delete_loop F fs items rest)"

definition delete_from_cart ::
  "'f float_ops \<Rightarrow> files \<Rightarrow> (string \<times> string \<times> string) list \<Rightarrow> files" where
  "delete_from_cart F fs answers =
     (let items = read_cart F fs in if items = [] then fs else delete_loop F fs items answers)"

subsection \<open>Search\<close>

definition find_by_disease :: "'f float_ops \<Rightarrow> files \<Rightarrow> string \<Rightarrow> 'f medicine list" where
  "find_by_disease F fs dis =
     filter (\<lambda>m. py_lower (py_strip (csv_cell (disease m))) = py_lower (py_strip dis))
            (load_store F fs)"

text \<open>Line 378 of \<^verbatim>\<open>place_order\<close>: the approximate matches.\<close>

definition find_approximate :: "'f float_ops \<Rightarrow> files \<Rightarrow> string \<Rightarrow> 'f medicine list" where
  "find_approximate F fs dis =
     filter (\<lambda>m. py_in (py_lower (py_strip dis)) (py_lower (py_strip (csv_cell (disease m)))))
            (load_store F fs)"

subsection \<open>Billing\<close>

datatype py_exception = TypeError | OverflowError

definition rupee :: string where
  "rupee = [CHR 0xE2, CHR 0x82, CHR 0xB9]"

text \<open>One item line of the bill. The subtotal is computed first; formatting a name that
  is \<^verbatim>\<open>None\<close> with \<^verbatim>\<open>:30\<close> raises \<^verbatim>\<open>TypeError\<close>.\<close>

definition bill_item_line :: "'f float_ops \<Rightarrow> 'f medicine \<Rightarrow> py_exception + string" where
  "bill_item_line F it =
     (case float_mul_int F (cost it) (quantity it) of
        None \<Rightarrow> Inl OverflowError
      | Some subtotal \<Rightarrow>
          (case name it of
             None \<Rightarrow> Inl TypeError
           | Some nm \<Rightarrow>
               Inr (ljust 30 nm @ '' '' @ rjust 3 (str_int (quantity it)) @ ''  '' @ rupee
                    @ rjust 8 (format_2f F (cost it)) @ ''  '' @ rupee
                    @ rjust 10 (format_2f F subtotal))))"

text \<open>The item lines written until the first one that raises.\<close>

fun bill_item_lines :: "'f float_ops \<Rightarrow> 'f medicine list \<Rightarrow> string list \<times> py_exception option" where
  "bill_item_lines F [] = ([], None)"
| "bill_item_lines F (it # items) =
     (case bill_item_line F it of
        Inl e \<Rightarrow> ([], Some e)
      | Inr l \<Rightarrow> (case bill_item_lines F items of (ls, e) \<Rightarrow> (l # ls, e)))"

definition bill_path :: "string \<Rightarrow> string" where
  "bill_path tracking_id = ''output/bill_'' @ tracking_id @ ''.txt''"

definition bill_head :: "string \<Rightarrow> string \<Rightarrow> string \<Rightarrow> string list" where
  "bill_head nm address phone =
     [''CHEMIST 4 U'',
      replicate 60 (CHR ''=''),
      ''Customer: '' @ nm,
      ''Address:  '' @ address,
      ''Phone:    '' @ phone,
      replicate 60 (CHR ''-''),
      ljust 30 ''Item'' @ '' '' @ rjust 3 ''Qty'' @ ''  '' @ rjust 8 ''Rate'' @ ''  ''
        @ rjust 10 ''Subtotal'',
      replicate 60 (CHR ''-'')]"

definition bill_foot :: "'f float_ops \<Rightarrow> 'f \<Rightarrow> string \<Rightarrow> string list" where
  "bill_foot F grand_total tracking_id =
     [replicate 60 (CHR ''-''),
      ''Total: '' @ rupee @ format_2f F grand_total,
      ''Payment Mode: Cash on Delivery'',
      ''Tracking ID: '' @ tracking_id,
      replicate 60 (CHR ''=''),
      ''Thank you for shopping with Chemist 4 U!'']"

text \<open>\<^verbatim>\<open>save_bill\<close>: when an item line raises, the file holds what was written before.\<close>

definition save_bill ::
  "'f float_ops \<Rightarrow> string \<Rightarrow> string \<Rightarrow> string \<Rightarrow> 'f medicine list \<Rightarrow> 'f \<Rightarrow> string \<Rightarrow> files \<Rightarrow>
   (py_exception + string) \<times> files" where
  "save_bill F nm address phone items grand_total tracking_id fs =
     (case bill_item_lines F items of
        (ls, Some e) \<Rightarrow>
          (Inl e, fs\<lparr>bill_files :=
                      write_file (bill_path tracking_id) (bill_head nm address phone @ ls)
                        (bill_files fs)\<rparr>)
      | (ls, None) \<Rightarrow>
          (Inr (bill_path tracking_id),
           fs\<lparr>bill_files :=
                 write_file (bill_path tracking_id)
                   (bill_head nm address phone @ ls @ bill_foot F grand_total tracking_id)
                   (bill_files fs)\<rparr>))"

text \<open>\<^verbatim>\<open>sum(it.cost * it.quantity for it in items)\<close>.\<close>

definition bill_total :: "'f float_ops \<Rightarrow> 'f medicine list \<Rightarrow> 'f option" where
  "bill_total F items =
     map_option (float_sum F)
       (those (map (\<lambda>it. float_mul_int F (cost it) (quantity it)) items))"

datatype 'f bill_outcome =
    Bill_cart_empty
  | Bill_raised py_exception
  | Bill_saved 'f string

definition bill_process ::
  "'f float_ops \<Rightarrow> files \<Rightarrow> string \<Rightarrow> string \<Rightarrow> string \<Rightarrow> string \<Rightarrow> 'f bill_outcome \<times> files" where
  "bill_process F fs name_in address_in phone_in tracking_id =
     (let items = read_cart F fs in
      if items = [] then (Bill_cart_empty, fs)
      else
        (case bill_total F items of
           None \<Rightarrow> (Bill_raised OverflowError, fs)
         | Some grand_total \<Rightarrow>
             (case save_bill F (py_strip name_in) (py_strip address_in) (py_strip phone_in)
                     items grand_total tracking_id fs of
                (Inl e, fs1) \<Rightarrow> (Bill_raised e, fs1)
              | (Inr path, fs1) \<Rightarrow> (Bill_saved grand_total path, clear_cart fs1))))"

subsection \<open>Placing an order\<close>

datatype 'f order_event =
    Ord_back
  | Ord_no_medicines_found "'f medicine list"
  | Ord_invalid_input
  | Ord_cancel
  | Ord_invalid_id
  | Ord_invalid_quantity
  | Ord_quantity_below_one
  | Ord_added "'f medicine" int

text \<open>One pass through the loop of \<^verbatim>\<open>place_order\<close>, up to the call of
  \<^verbatim>\<open>append_to_cart\<close>: the disease typed, the identifier typed, the quantity typed.
  \<open>Ord_no_medicines_found\<close> carries the approximate matches that are printed.\<close>

definition place_order_step ::
  "'f float_ops \<Rightarrow> files \<Rightarrow> string \<Rightarrow> string \<Rightarrow> string \<Rightarrow> 'f order_event \<times> files" where
  "place_order_step F fs disease_in id_in qty_in =
     (let dis = py_strip disease_in in
      if py_lower dis = ''back'' then (Ord_back, fs)
      else
        (let results = find_by_disease F fs dis in
         if results = [] then (Ord_no_medicines_found (find_approximate F fs dis), fs)
         else
           (case py_int (py_strip id_in) of
              None \<Rightarrow> (Ord_invalid_input, fs)
            | Some id_choice \<Rightarrow>
                if id_choice = 0 then (Ord_cancel, fs)
                else
                  (case (case find (\<lambda>m. med_id m = id_choice) results of
                           Some m \<Rightarrow> Some m
                         | None \<Rightarrow> find (\<lambda>m. med_id m = id_choice) (load_store F fs)) of
                     None \<Rightarrow> (Ord_invalid_id, fs)
                   | Some chosen \<Rightarrow>
                       (case py_int (py_strip qty_in) of
                          None \<Rightarrow> (Ord_invalid_quantity, fs)
                        | Some qty \<Rightarrow>
                            if qty \<le> 0 then (Ord_quantity_below_one, fs)
                            else (Ord_added chosen qty, append_to_cart F fs chosen qty))))))"

subsection \<open>Notions used in the statements\<close>

text \<open>The number that a string of digits denotes, continuing from \<open>acc\<close>.\<close>

definition digits_value :: "nat \<Rightarrow> string \<Rightarrow> nat" where
  "digits_value acc ds = foldl (\<lambda>a c. 10 * a + digit_val c) acc ds"

text \<open>The identifiers and quantities of a cart, in order.\<close>

definition cart_summary :: "'f medicine list \<Rightarrow> (int \<times> int) list" where
  "cart_summary items = map (\<lambda>m. (med_id m, quantity m)) items"

text \<open>The identifiers, names and diseases of a list of products, in order.\<close>

definition store_view :: "'f medicine list \<Rightarrow> (int \<times> string option \<times> string option) list" where
  "store_view items = map (\<lambda>m. (med_id m, name m, disease m)) items"

text \<open>What \<^verbatim>\<open>read_cart\<close> makes of an item that \<^verbatim>\<open>write_cart_from_items\<close> wrote:
  \<^verbatim>\<open>None\<close> has become the empty string, and the cost has gone through \<^verbatim>\<open>.2f\<close> and
  \<^verbatim>\<open>float\<close>.\<close>

definition reloaded :: "'f float_ops \<Rightarrow> 'f medicine \<Rightarrow> 'f medicine" where
  "reloaded F it =
     \<lparr> med_id = med_id it,
       name = Some (csv_cell (name it)),
       intensity = Some (csv_cell (intensity it)),
       disease = Some (csv_cell (disease it)),
       cost = (case float_of_str F (format_2f F (cost it)) of
                 None \<Rightarrow> float_zero F
               | Some x \<Rightarrow> x),
       quantity = quantity it \<rparr>"

text \<open>The states of the files that the program reaches from an empty cart by adding to
  the cart, deleting from it and billing.\<close>

inductive cart_reachable :: "'f float_ops \<Rightarrow> files \<Rightarrow> bool" for F :: "'f float_ops" where
  empty: "read_cart F fs = [] \<Longrightarrow> cart_reachable F fs"
| added: "cart_reachable F fs \<Longrightarrow> cart_reachable F (append_to_cart F fs med qty)"
| deleted: "cart_reachable F fs \<Longrightarrow> cart_reachable F (delete_from_cart F fs answers)"
| billed: "cart_reachable F fs \<Longrightarrow>
           cart_reachable F (snd (bill_process F fs name_in address_in phone_in tracking_id))"

subsection \<open>Float primitives for concrete runs\<close>

text \<open>
  For evaluating the program on concrete files the float primitives are instantiated with
  exact amounts counted in hundredths: \<open>2000\<close> is \<^verbatim>\<open>20.00\<close>. The instance reads
  plain decimal numerals with at most two decimals, which is all the examples contain.
\<close>

definition hundredths_of_str :: "string \<Rightarrow> int option" where
  "hundredths_of_str s =
     (let t = py_strip s;
          neg = (t \<noteq> [] \<and> hd t = CHR ''-'');
          u = (if neg then tl t else t);
          ip = takeWhile (\<lambda>c. c \<noteq> CHR ''.'') u;
          fp = drop (Suc (length ip)) u
      in case (parse_digits ip,
               if fp = [] then Some 0
               else if length fp = 1 then map_option (\<lambda>d. 10 * d) (parse_digits fp)
               else if length fp = 2 then parse_digits fp
               else None) of
           (Some a, Some b) \<Rightarrow> Some ((if neg then - 1 else 1) * int (100 * a + b))
         | _ \<Rightarrow> None)"

definition hundredths_fmt :: "int \<Rightarrow> string" where
  "hundredths_fmt c =
     (if c < 0 then ''-'' else []) @ str_nat (nat \<bar>c\<bar> div 100) @ ''.''
       @ [digit_char (nat \<bar>c\<bar> div 10 mod 10), digit_char (nat \<bar>c\<bar> mod 10)]"

definition hundredths_ops :: "int float_ops" where
  "hundredths_ops =
     \<lparr> float_of_str = hundredths_of_str,
       float_zero = 0,
       format_2f = hundredths_fmt,
       float_mul_int = (\<lambda>c n. Some (c * n)),
       float_sum = sum_list \<rparr>"

text \<open>The files after the first start of the program, and the first product of the
  sample store.\<close>

definition fresh_files :: files where
  "fresh_files = ensure_folders_and_files \<lparr> store_file = None, cart_file = None, bill_files = [] \<rparr>"

text \<open>A cart file with two entries: two of a product at 20.00 and one at 85.00.\<close>

definition two_item_cart :: files where
  "two_item_cart =
     \<lparr> store_file = Some sample_store,
       cart_file = Some [cart_header,
         [''101'', ''Paracetamol'', ''500mg'', ''Fever'', ''20.00'', ''2''],
         [''103'', ''Azithromycin'', ''250mg'', ''Infection'', ''85.00'', ''1'']],
       bill_files = [] \<rparr>"

definition paracetamol :: "int medicine" where
  "paracetamol =
     Medicine hundredths_ops (Some ''101'') (Some ''Paracetamol'') (Some ''500mg'') (Some ''Fever'')
       (Some ''20.00'')"

text \<open>A product object with the identifier of Paracetamol and other attributes.\<close>

definition relabelled :: "int medicine" where
  "relabelled = \<lparr> med_id = 101, name = Some ''Crocin'', intensity = Some ''1g'',
     disease = Some ''Headache'', cost = 9999, quantity = 7 \<rparr>"

definition azithromycin :: "int medicine" where
  "azithromycin =
     Medicine hundredths_ops (Some ''103'') (Some ''Azithromycin'') (Some ''250mg'')
       (Some ''Infection'') (Some ''85.00'')"

section \<open>Properties\<close>

subsection \<open>Printing an integer and reading it back\<close>

lemma is_digit_digit_char: "d < 10 \<Longrightarrow> is_digit (digit_char d)"
  by (simp add: is_digit_def digit_char_def)

lemma digit_val_digit_char: "d < 10 \<Longrightarrow> digit_val (digit_char d) = d"
  by (simp add: digit_val_def digit_char_def)

lemma is_digit_not_special:
  "is_digit c \<Longrightarrow> c \<noteq> CHR ''_'' \<and> c \<noteq> CHR ''-'' \<and> c \<noteq> CHR ''+'' \<and> \<not> is_space c"
  by (auto simp: is_digit_def is_space_def)

lemma str_nat_digits: "c \<in> set (str_nat n) \<Longrightarrow> is_digit c"
proof (induction n arbitrary: c rule: str_nat.induct)
  case (1 n)
  show ?case
  proof (cases "n < 10")
    case True
    with "1.prems" show ?thesis
      by (simp add: str_nat.simps [of n] is_digit_digit_char)
  next
    case False
    with "1.prems" have "c \<in> set (str_nat (n div 10)) \<or> c = digit_char (n mod 10)"
      by (auto simp: str_nat.simps [of n])
    then show ?thesis
      using "1.IH" [OF False] by (auto simp: is_digit_digit_char)
  qed
qed

lemma str_nat_nonempty: "str_nat n \<noteq> []"
  by (simp add: str_nat.simps [of n])


lemma digits_value_str_nat: "digits_value 0 (str_nat n) = n"
proof (induction n rule: str_nat.induct)
  case (1 n)
  show ?case
  proof (cases "n < 10")
    case True
    then show ?thesis
      by (simp add: str_nat.simps [of n] digits_value_def digit_val_digit_char)
  next
    case False
    then have "digits_value 0 (str_nat n) = 10 * digits_value 0 (str_nat (n div 10)) + n mod 10"
      by (simp add: str_nat.simps [of n] digits_value_def digit_val_digit_char)
    with "1.IH" [OF False] show ?thesis by simp
  qed
qed

lemma scan_digits_all:
  "\<forall>c \<in> set ds. is_digit c \<Longrightarrow> is_digit p \<Longrightarrow> scan_digits acc p ds = Some (digits_value acc ds)"
proof (induction ds arbitrary: acc p)
  case Nil
  then show ?case using is_digit_not_special [of p] by (simp add: digits_value_def)
next
  case (Cons d ds)
  then show ?case using is_digit_not_special [of d] by (simp add: digits_value_def)
qed

lemma parse_digits_str_nat: "parse_digits (str_nat n) = Some n"
proof -
  obtain c cs where cs: "str_nat n = c # cs"
    using str_nat_nonempty [of n] by (cases "str_nat n") auto
  have dig: "\<forall>x \<in> set (c # cs). is_digit x"
    using str_nat_digits [of _ n] cs by auto
  then have "parse_digits (c # cs) = Some (digits_value (digit_val c) cs)"
    by (simp add: parse_digits_def scan_digits_all)
  also have "digits_value (digit_val c) cs = digits_value 0 (c # cs)"
    by (simp add: digits_value_def)
  finally show ?thesis using cs digits_value_str_nat [of n] by simp
qed

lemma py_strip_id:
  assumes "s \<noteq> []" "\<not> is_space (hd s)" "\<not> is_space (last s)"
  shows "py_strip s = s"
proof -
  from assms have a: "dropWhile is_space s = s" by (cases s) auto
  from assms have "dropWhile is_space (rev s) = rev s"
    by (cases "rev s") (auto simp: last_rev hd_rev)
  with a show ?thesis by (simp add: py_strip_def)
qed

lemma str_nat_hd_last: "is_digit (hd (str_nat n)) \<and> is_digit (last (str_nat n))"
  using str_nat_digits [of _ n] str_nat_nonempty [of n] by (metis hd_in_set last_in_set)

lemma str_int_nonempty: "str_int i \<noteq> []"
  by (simp add: str_int_def str_nat_nonempty)

lemma py_strip_str_int: "py_strip (str_int i) = str_int i"
proof (rule py_strip_id)
  show "str_int i \<noteq> []" by (rule str_int_nonempty)
  show "\<not> is_space (hd (str_int i))"
    using str_nat_hd_last is_digit_not_special
    by (auto simp: str_int_def is_space_def)
  show "\<not> is_space (last (str_int i))"
    using str_nat_hd_last is_digit_not_special
    by (auto simp: str_int_def str_nat_nonempty)
qed

lemma py_int_str_int: "py_int (str_int i) = Some i"
proof (cases "i < 0")
  case True
  then show ?thesis
    by (simp add: py_int_def py_strip_str_int) (simp add: str_int_def parse_digits_str_nat)
next
  case False
  obtain c cs where cs: "str_nat (nat i) = c # cs"
    using str_nat_nonempty [of "nat i"] by (cases "str_nat (nat i)") auto
  have "is_digit c" using str_nat_hd_last [of "nat i"] cs by simp
  then have "c \<noteq> CHR ''-''" "c \<noteq> CHR ''+''" using is_digit_not_special by auto
  moreover have "parse_digits (c # cs) = Some (nat i)"
    using parse_digits_str_nat [of "nat i"] cs by simp
  moreover have eq: "str_int i = c # cs" using False cs by (simp add: str_int_def)
  moreover have "py_strip (c # cs) = c # cs" using py_strip_str_int [of i] eq by simp
  ultimately show ?thesis using False
    by (simp add: py_int_def)
qed

subsection \<open>Reading back what was written\<close>

lemma dict_row_cart_header:
  "dict_row cart_header [a, b, c, d, e, f] =
     [''id'' \<mapsto> Some a, ''name'' \<mapsto> Some b, ''intensity'' \<mapsto> Some c, ''disease'' \<mapsto> Some d,
      ''cost'' \<mapsto> Some e, ''quantity'' \<mapsto> Some f]"
  by (rule ext) (simp add: dict_row_def cart_header_def)

lemma read_written_row:
  "(row_medicine F (dict_row cart_header (cart_row F it)))
     \<lparr>quantity := row_quantity (dict_row cart_header (cart_row F it))\<rparr> = reloaded F it"
  by (simp add: cart_row_def dict_row_cart_header row_medicine_def get_default_def Medicine_def
      row_quantity_def reloaded_def py_int_str_int)

lemma has_id_written_row: "has_id (dict_row cart_header (cart_row F it))"
  by (simp add: cart_row_def dict_row_cart_header has_id_def str_int_nonempty)

lemma cart_row_nonempty: "cart_row F it \<noteq> []"
  by (simp add: cart_row_def)

lemma read_cart_write_cart:
  "read_cart F (write_cart_from_items F items fs) = map (reloaded F) items"
proof -
  have a: "filter (\<lambda>r. r \<noteq> []) (map (cart_row F) items) = map (cart_row F) items"
    by (simp add: cart_row_nonempty)
  have b: "filter has_id (map (\<lambda>x. dict_row cart_header (cart_row F x)) items)
            = map (\<lambda>x. dict_row cart_header (cart_row F x)) items"
    by (simp add: has_id_written_row)
  have "read_cart F (write_cart_from_items F items fs)
          = map (\<lambda>row. (row_medicine F row)\<lparr>quantity := row_quantity row\<rparr>)
              (filter has_id (map (\<lambda>x. dict_row cart_header (cart_row F x)) items))"
    by (simp add: read_cart_def write_cart_from_items_def DictReader_def a o_def)
  also have "\<dots> = map (reloaded F) items"
    unfolding b by (simp add: o_def read_written_row)
  finally show ?thesis .
qed

lemma cart_summary_reloaded: "cart_summary (map (reloaded F) items) = cart_summary items"
  by (simp add: cart_summary_def reloaded_def o_def)

lemma read_cart_clear_cart: "read_cart F (clear_cart fs) = []"
  by (simp add: read_cart_def clear_cart_def DictReader_def)

subsection \<open>Evaluation on concrete files\<close>

lemma hundredths_ops_sel:
  "float_of_str hundredths_ops = hundredths_of_str"
  "float_zero hundredths_ops = 0"
  "format_2f hundredths_ops = hundredths_fmt"
  "float_mul_int hundredths_ops c n = Some (c * n)"
  "float_sum hundredths_ops = sum_list"
  by (simp_all add: hundredths_ops_def)

lemmas int_eval = py_int_def py_strip_def is_space_def parse_digits_def is_digit_def digit_val_def

lemma py_int_examples:
  "py_int ''101'' = Some 101" "py_int ''103'' = Some 103" "py_int ''2'' = Some 2"
  "py_int ''1'' = Some 1" "py_int ''5'' = Some 5" "py_int ''-3'' = Some (- 3)"
  by (simp_all add: int_eval)

lemma hundredths_of_str_examples:
  "hundredths_of_str ''20.00'' = Some 2000" "hundredths_of_str ''85.00'' = Some 8500"
  by (simp_all add: hundredths_of_str_def py_strip_def is_space_def parse_digits_def is_digit_def
      digit_val_def Let_def)

lemma read_two_item_cart:
  "read_cart hundredths_ops two_item_cart =
     [\<lparr>med_id = 101, name = Some ''Paracetamol'', intensity = Some ''500mg'',
        disease = Some ''Fever'', cost = 2000, quantity = 2\<rparr>,
      \<lparr>med_id = 103, name = Some ''Azithromycin'', intensity = Some ''250mg'',
        disease = Some ''Infection'', cost = 8500, quantity = 1\<rparr>]"
  by (simp add: two_item_cart_def read_cart_def DictReader_def dict_row_cart_header has_id_def
      row_medicine_def get_default_def Medicine_def row_quantity_def py_int_examples
      hundredths_of_str_examples hundredths_ops_def)

lemma str_nat_digit: "n < 10 \<Longrightarrow> str_nat n = [digit_char n]"
  by (simp add: str_nat.simps [of n])

lemma digit_char_simps:
  "digit_char 0 = CHR ''0''" "digit_char (Suc 0) = CHR ''1''" "digit_char 2 = CHR ''2''"
  "digit_char 3 = CHR ''3''" "digit_char 4 = CHR ''4''" "digit_char 5 = CHR ''5''"
  "digit_char 6 = CHR ''6''" "digit_char 7 = CHR ''7''" "digit_char 8 = CHR ''8''"
  "digit_char 9 = CHR ''9''"
  unfolding digit_char_def by code_simp+

lemma fmt_12500: "hundredths_fmt 12500 = ''125.00''"
  by (simp add: hundredths_fmt_def str_nat.simps [of 125] str_nat.simps [of 12] str_nat_digit
      digit_char_simps)

subsection \<open>The branches of billing\<close>

lemma those_map_Some: "those xs = Some ys \<longleftrightarrow> xs = map Some ys"
  by (induction xs arbitrary: ys) (auto split: option.splits)

lemma bill_process_saved:
  assumes "fst (bill_process F fs name_in address_in phone_in tracking_id) = Bill_saved t path"
  shows "read_cart F fs \<noteq> [] \<and> bill_total F (read_cart F fs) = Some t \<and> path = bill_path tracking_id
    \<and> (\<exists>ls. bill_item_lines F (read_cart F fs) = (ls, None)
          \<and> snd (bill_process F fs name_in address_in phone_in tracking_id)
              = clear_cart (fs\<lparr>bill_files := write_file (bill_path tracking_id)
                   (bill_head (py_strip name_in) (py_strip address_in) (py_strip phone_in) @ ls
                      @ bill_foot F t tracking_id)
                   (bill_files fs)\<rparr>))"
proof (cases "read_cart F fs = []")
  case True
  with assms show ?thesis by (simp add: bill_process_def)
next
  case ne: False
  show ?thesis
  proof (cases "bill_total F (read_cart F fs)")
    case None
    with assms ne show ?thesis by (simp add: bill_process_def)
  next
    case (Some tot)
    obtain ls e where ls: "bill_item_lines F (read_cart F fs) = (ls, e)"
      by (cases "bill_item_lines F (read_cart F fs)") auto
    show ?thesis
    proof (cases e)
      case None
      with assms ne Some ls show ?thesis
        by (simp add: bill_process_def save_bill_def)
    next
      case (Some ex)
      with assms ne \<open>bill_total F (read_cart F fs) = Some tot\<close> ls show ?thesis
        by (simp add: bill_process_def save_bill_def)
    qed
  qed
qed

lemma bill_two_item_cart:
  "fst (bill_process hundredths_ops two_item_cart ''Ann'' ''Pune'' ''12345'' ''0123456789'')
     = Bill_saved 12500 (bill_path ''0123456789'')"
  by (simp add: bill_process_def read_two_item_cart bill_total_def save_bill_def
      bill_item_line_def hundredths_ops_sel Let_def)

subsection \<open>Positions, summaries and more evaluation\<close>

lemma index_of_id_Some:
  "index_of_id i items = Some k \<Longrightarrow>
     k < length items \<and> med_id (items ! k) = i \<and> (\<forall>j<k. med_id (items ! j) \<noteq> i)"
proof (induction items arbitrary: k)
  case Nil
  then show ?case by simp
next
  case (Cons it items)
  show ?case
  proof (cases "med_id it = i")
    case True
    with Cons.prems show ?thesis by simp
  next
    case False
    with Cons.prems obtain k' where k': "index_of_id i items = Some k'" "k = Suc k'"
      by auto
    from Cons.IH [OF k'(1)] False k'(2) show ?thesis
      by (auto simp: less_Suc_eq_0_disj)
  qed
qed

lemma index_of_id_None: "index_of_id i items = None \<longleftrightarrow> i \<notin> set (map med_id items)"
  by (induction items) auto

lemma cart_row_quantity:
  "cart_row F (it\<lparr>quantity := q\<rparr>) = (cart_row F it)[5 := str_int q]"
  by (simp add: cart_row_def)

lemma cart_summary_take_drop:
  "cart_summary (take k items @ drop (Suc k) items)
     = take k (cart_summary items) @ drop (Suc k) (cart_summary items)"
  by (simp add: cart_summary_def take_map drop_map)

lemma cart_summary_update:
  "cart_summary (items[k := (items ! k)\<lparr>quantity := q\<rparr>])
     = (cart_summary items)[k := (med_id (items ! k), q)]"
  by (simp add: cart_summary_def map_update)

lemma read_cart_write_summary:
  "cart_summary (read_cart F (write_cart_from_items F items fs)) = cart_summary items"
  by (simp add: read_cart_write_cart cart_summary_reloaded)

lemma distinct_removed_absent:
  assumes "distinct (map med_id items)" "k < length items"
  shows "med_id (items ! k) \<notin> set (map med_id (take k items @ drop (Suc k) items))"
proof -
  have "items = take k items @ items ! k # drop (Suc k) items"
    using assms(2) by (rule id_take_nth_drop)
  then have "distinct (map med_id (take k items @ items ! k # drop (Suc k) items))"
    using assms(1) by simp
  then show ?thesis by auto
qed

lemma med_id_examples: "med_id paracetamol = 101" "med_id azithromycin = 103" "med_id relabelled = 101"
  by (simp_all add: paracetamol_def azithromycin_def relabelled_def Medicine_def py_int_examples)

lemma str_int_examples:
  "str_int 1 = ''1''" "str_int 2 = ''2''" "str_int 3 = ''3''" "str_int 5 = ''5''" "str_int 8 = ''8''"
  "str_int 101 = ''101''" "str_int 103 = ''103''"
  by (simp_all add: str_int_def str_nat.simps [of 101] str_nat.simps [of 103]
      str_nat.simps [of 10] str_nat_digit digit_char_simps)

lemma hundredths_fmt_examples:
  "hundredths_fmt 2000 = ''20.00''" "hundredths_fmt 8500 = ''85.00''"
  by (simp_all add: hundredths_fmt_def str_nat.simps [of 20] str_nat.simps [of 85] str_nat_digit
      digit_char_simps)

lemma rows_two_item_cart:
  "map (cart_row hundredths_ops) (read_cart hundredths_ops two_item_cart) =
      [[''101'', ''Paracetamol'', ''500mg'', ''Fever'', ''20.00'', ''2''],
       [''103'', ''Azithromycin'', ''250mg'', ''Infection'', ''85.00'', ''1'']]"
  by (simp add: read_two_item_cart cart_row_def csv_cell_def str_int_examples
      hundredths_fmt_examples hundredths_ops_sel)

lemma py_int_strip_examples:
  "py_int (py_strip ''2'') = Some 2" "py_int (py_strip ''1'') = Some 1"
  "py_int (py_strip ''-3'') = Some (- 3)" "py_int (py_strip ''0'') = Some 0"
  "py_int (py_strip ''101'') = Some 101"
  by (simp_all add: int_eval)

lemma summary_two_item_cart:
  "cart_summary (read_cart hundredths_ops two_item_cart) = [(101, 2), (103, 1)]"
  by (simp add: read_two_item_cart cart_summary_def)

lemma answer_n: "py_lower (py_strip ''n'') = ''n''"
  by (simp add: py_lower_def py_strip_def is_space_def lower_char_def)

subsection \<open>Stripping, substrings and the sample store\<close>

lemma take_length_prefix: "take (length xs) ys = xs \<longleftrightarrow> prefix xs ys"
proof
  assume "take (length xs) ys = xs"
  then show "prefix xs ys" by (metis take_is_prefix)
next
  assume "prefix xs ys"
  then show "take (length xs) ys = xs" by (auto simp: prefix_def)
qed

lemma py_in_sublist: "py_in needle hay \<longleftrightarrow> sublist needle hay"
proof (induction hay)
  case Nil
  then show ?case by simp
next
  case (Cons c cs)
  then show ?case
    using take_length_prefix [of needle "c # cs"] by (simp add: sublist_Cons_right)
qed

lemma py_strip_edges:
  assumes "py_strip s \<noteq> []"
  shows "\<not> is_space (hd (py_strip s)) \<and> \<not> is_space (last (py_strip s))"
proof -
  define d where "d = dropWhile is_space s"
  define r where "r = dropWhile is_space (rev d)"
  have ps: "py_strip s = rev r" by (simp add: py_strip_def d_def r_def)
  with assms have r: "r \<noteq> []" by simp
  have d: "d \<noteq> []"
  proof
    assume "d = []"
    then have "r = []" by (simp add: r_def)
    with r show False by simp
  qed
  have "\<not> is_space (hd r)"
    using r unfolding r_def by (rule hd_dropWhile)
  then have l: "\<not> is_space (last (py_strip s))"
    using r by (simp add: ps last_rev)
  have "rev d = takeWhile is_space (rev d) @ r"
    by (simp add: r_def)
  then have "last (rev d) = last r"
    using r by (metis last_appendR)
  then have "hd (py_strip s) = hd d"
    using d r by (simp add: ps hd_rev last_rev)
  moreover have "\<not> is_space (hd d)"
    using d unfolding d_def by (rule hd_dropWhile)
  ultimately show ?thesis using l by simp
qed

lemma py_strip_Nil: "py_strip [] = []"
  by (simp add: py_strip_def)

lemma py_strip_idem: "py_strip (py_strip s) = py_strip s"
proof (cases "py_strip s = []")
  case True
  then show ?thesis by (simp only: py_strip_Nil)
next
  case False
  with py_strip_edges [OF False] show ?thesis by (intro py_strip_id) auto
qed

lemma py_strip_margins:
  "\<exists>ws1 ws2. s = ws1 @ py_strip s @ ws2 \<and> (\<forall>c \<in> set ws1. is_space c) \<and> (\<forall>c \<in> set ws2. is_space c)"
proof -
  define d where "d = dropWhile is_space s"
  define t where "t = takeWhile is_space (rev d)"
  have a: "s = takeWhile is_space s @ d" by (simp add: d_def)
  have "rev d = t @ dropWhile is_space (rev d)" by (simp add: t_def)
  then have "rev (rev d) = rev (t @ dropWhile is_space (rev d))" by (rule arg_cong)
  then have b: "d = py_strip s @ rev t"
    by (simp only: rev_rev_ident rev_append py_strip_def d_def)
  have "s = takeWhile is_space s @ py_strip s @ rev t"
    using a b by metis
  moreover have "\<forall>c \<in> set (takeWhile is_space s). is_space c"
    by (auto dest: set_takeWhileD)
  moreover have "\<forall>c \<in> set (rev t). is_space c"
    by (auto simp: t_def dest: set_takeWhileD)
  ultimately show ?thesis by blast
qed

lemma find_by_disease_strip: "find_by_disease F fs (py_strip d) = find_by_disease F fs d"
  by (simp add: find_by_disease_def py_strip_idem)

lemma find_approximate_strip: "find_approximate F fs (py_strip d) = find_approximate F fs d"
  by (simp add: find_approximate_def py_strip_idem)

lemma dict_row_store_header:
  "dict_row [''id'', ''name'', ''intensity'', ''disease'', ''cost''] [a, b, c, d, e] =
     [''id'' \<mapsto> Some a, ''name'' \<mapsto> Some b, ''intensity'' \<mapsto> Some c, ''disease'' \<mapsto> Some d,
      ''cost'' \<mapsto> Some e]"
  by (rule ext) (simp add: dict_row_def)

lemma py_int_store_ids:
  "py_int ''102'' = Some 102" "py_int ''104'' = Some 104" "py_int ''105'' = Some 105"
  "py_int ''106'' = Some 106" "py_int ''107'' = Some 107" "py_int ''108'' = Some 108"
  "py_int ''109'' = Some 109"
  by (simp_all add: int_eval)

lemma sample_store_diseases:
  "map (\<lambda>m. (med_id m, name m, disease m)) (load_store hundredths_ops fresh_files) =
     [(101, Some ''Paracetamol'', Some ''Fever''),
      (102, Some ''Dolo'', Some ''Fever''),
      (103, Some ''Azithromycin'', Some ''Infection''),
      (104, Some ''Amoxicillin'', Some ''Infection''),
      (105, Some ''Cetirizine'', Some ''Allergy''),
      (106, Some ''Omeprazole'', Some ''Acidity''),
      (107, Some ''Multivitamin'', Some ''General Health''),
      (108, Some ''Ibuprofen'', Some ''Pain Relief''),
      (109, Some ''Cetraxal'', Some ''Ear Infection'')]"
  by (simp add: fresh_files_def ensure_folders_and_files_def load_store_def sample_store_def
      DictReader_def dict_row_store_header has_id_def row_medicine_def get_default_def
      Medicine_def py_int_examples py_int_store_ids)

lemma upper_to_lower:
  "char_of (97::nat) = CHR ''a''" "char_of (101::nat) = CHR ''e''" "char_of (102::nat) = CHR ''f''"
  "char_of (103::nat) = CHR ''g''" "char_of (104::nat) = CHR ''h''" "char_of (105::nat) = CHR ''i''"
  "char_of (112::nat) = CHR ''p''" "char_of (114::nat) = CHR ''r''"
  by code_simp+

lemma lowered_diseases:
  "py_lower (py_strip ''Fever'') = ''fever''"
  "py_lower (py_strip ''Infection'') = ''infection''"
  "py_lower (py_strip ''Allergy'') = ''allergy''"
  "py_lower (py_strip ''Acidity'') = ''acidity''"
  "py_lower (py_strip ''General Health'') = ''general health''"
  "py_lower (py_strip ''Pain Relief'') = ''pain relief''"
  "py_lower (py_strip ''Ear Infection'') = ''ear infection''"
  "py_lower (py_strip ''fever'') = ''fever''"
  "py_lower (py_strip ''Fev'') = ''fev''"
  by (simp_all add: py_lower_def py_strip_def is_space_def lower_char_def upper_to_lower)

lemma store_view_filter:
  "store_view (filter (\<lambda>m. Q (disease m)) xs) = filter (\<lambda>t. Q (snd (snd t))) (store_view xs)"
  by (induction xs) (auto simp: store_view_def)

lemma store_view_sample:
  "store_view (load_store hundredths_ops fresh_files) =
     [(101, Some ''Paracetamol'', Some ''Fever''),
      (102, Some ''Dolo'', Some ''Fever''),
      (103, Some ''Azithromycin'', Some ''Infection''),
      (104, Some ''Amoxicillin'', Some ''Infection''),
      (105, Some ''Cetirizine'', Some ''Allergy''),
      (106, Some ''Omeprazole'', Some ''Acidity''),
      (107, Some ''Multivitamin'', Some ''General Health''),
      (108, Some ''Ibuprofen'', Some ''Pain Relief''),
      (109, Some ''Cetraxal'', Some ''Ear Infection'')]"
  using sample_store_diseases by (simp add: store_view_def)

lemma view_exact:
  "store_view (find_by_disease hundredths_ops fresh_files d) =
     filter (\<lambda>t. py_lower (py_strip (csv_cell (snd (snd t)))) = py_lower (py_strip d))
       (store_view (load_store hundredths_ops fresh_files))"
  unfolding find_by_disease_def
  by (rule store_view_filter [where Q = "\<lambda>x. py_lower (py_strip (csv_cell x)) = py_lower (py_strip d)"])

lemma view_approx:
  "store_view (find_approximate hundredths_ops fresh_files d) =
     filter (\<lambda>t. py_in (py_lower (py_strip d)) (py_lower (py_strip (csv_cell (snd (snd t))))))
       (store_view (load_store hundredths_ops fresh_files))"
  unfolding find_approximate_def
  by (rule store_view_filter [where Q = "\<lambda>x. py_in (py_lower (py_strip d)) (py_lower (py_strip (csv_cell x)))"])

lemma view_exact_fever:
  "store_view (find_by_disease hundredths_ops fresh_files ''fever'') =
     [(101, Some ''Paracetamol'', Some ''Fever''), (102, Some ''Dolo'', Some ''Fever'')]"
  unfolding view_exact store_view_sample
  by (simp add: csv_cell_def lowered_diseases)

lemma view_exact_fev: "store_view (find_by_disease hundredths_ops fresh_files ''Fev'') = []"
  unfolding view_exact store_view_sample
  by (simp add: csv_cell_def lowered_diseases)

lemma view_approx_fev:
  "store_view (find_approximate hundredths_ops fresh_files ''Fev'') =
     [(101, Some ''Paracetamol'', Some ''Fever''), (102, Some ''Dolo'', Some ''Fever'')]"
  unfolding view_approx store_view_sample
  by (simp add: csv_cell_def lowered_diseases)

subsection \<open>Adding to the cart: identifiers and quantities\<close>

lemma index_of_id_cong:
  "map med_id xs = map med_id ys \<Longrightarrow> index_of_id i xs = index_of_id i ys"
proof (induction xs arbitrary: ys)
  case Nil
  then show ?case by simp
next
  case (Cons x xs)
  then obtain y ys' where ys: "ys = y # ys'" by (cases ys) auto
  with Cons.prems have "med_id x = med_id y" "map med_id xs = map med_id ys'" by auto
  with Cons.IH [of ys'] ys show ?case by simp
qed

lemma map_med_id_reloaded: "map med_id (map (reloaded F) items) = map med_id items"
  by (simp add: reloaded_def o_def)

lemma index_of_id_snoc:
  "i \<notin> set (map med_id xs) \<Longrightarrow> med_id x = i \<Longrightarrow> index_of_id i (xs @ [x]) = Some (length xs)"
  by (induction xs) auto

lemma map_med_id_summary: "map fst (cart_summary items) = map med_id items"
  by (simp add: cart_summary_def o_def)

lemma append_summary_absent:
  assumes "0 < q" "med_id med \<notin> set (map med_id (read_cart F fs))"
  shows "cart_summary (read_cart F (append_to_cart F fs med q))
           = cart_summary (read_cart F fs) @ [(med_id med, q)]"
proof -
  from assms(2) have "index_of_id (med_id med) (read_cart F fs) = None"
    by (simp add: index_of_id_None)
  with assms(1) have "append_to_cart F fs med q
      = write_cart_from_items F (read_cart F fs @ [med\<lparr>quantity := q\<rparr>]) fs"
    by (simp add: append_to_cart_def Let_def)
  then show ?thesis
    by (simp add: read_cart_write_summary) (simp add: cart_summary_def)
qed

lemma append_summary_present:
  assumes "0 < q" "index_of_id (med_id med) (read_cart F fs) = Some k"
  shows "cart_summary (read_cart F (append_to_cart F fs med q))
           = (cart_summary (read_cart F fs))[k := (med_id med, quantity (read_cart F fs ! k) + q)]"
proof -
  from index_of_id_Some [OF assms(2)] have k: "med_id (read_cart F fs ! k) = med_id med" by simp
  from assms have "append_to_cart F fs med q
      = write_cart_from_items F
          ((read_cart F fs)[k := (read_cart F fs ! k)\<lparr>quantity := quantity (read_cart F fs ! k) + q\<rparr>]) fs"
    by (simp add: append_to_cart_def Let_def)
  then show ?thesis
    using k by (simp add: read_cart_write_summary cart_summary_update)
qed

lemma index_of_id_summary:
  "cart_summary xs = cart_summary ys \<Longrightarrow> index_of_id i xs = index_of_id i ys"
proof -
  assume "cart_summary xs = cart_summary ys"
  then have "map fst (cart_summary xs) = map fst (cart_summary ys)" by simp
  then have "map med_id xs = map med_id ys" by (simp only: map_med_id_summary)
  then show ?thesis by (rule index_of_id_cong)
qed

lemma summary_nth_quantity:
  "k < length items \<Longrightarrow> snd (cart_summary items ! k) = quantity (items ! k)"
  by (simp add: cart_summary_def)

lemma summary_length: "length (cart_summary items) = length items"
  by (simp add: cart_summary_def)

lemma distinct_append_to_cart:
  assumes "distinct (map med_id (read_cart F fs))"
  shows "distinct (map med_id (read_cart F (append_to_cart F fs med q)))"
proof (cases "0 < q")
  case False
  then show ?thesis using assms by (simp add: append_to_cart_def)
next
  case True
  show ?thesis
  proof (cases "index_of_id (med_id med) (read_cart F fs)")
    case None
    then have a: "med_id med \<notin> set (map med_id (read_cart F fs))"
      by (simp add: index_of_id_None)
    have "map fst (cart_summary (read_cart F (append_to_cart F fs med q)))
        = map fst (cart_summary (read_cart F fs) @ [(med_id med, q)])"
      using append_summary_absent [OF True a] by simp
    then have "map med_id (read_cart F (append_to_cart F fs med q))
        = map med_id (read_cart F fs) @ [med_id med]"
      by (simp add: map_med_id_summary)
    then show ?thesis using assms a by simp
  next
    case (Some k)
    from index_of_id_Some [OF Some] have k: "k < length (read_cart F fs)"
      "med_id (read_cart F fs ! k) = med_id med" by auto
    have "map fst (cart_summary (read_cart F (append_to_cart F fs med q)))
        = map fst ((cart_summary (read_cart F fs))
             [k := (med_id med, quantity (read_cart F fs ! k) + q)])"
      using append_summary_present [OF True Some] by simp
    also have "\<dots> = (map med_id (read_cart F fs))[k := med_id med]"
      by (simp add: map_update map_med_id_summary)
    also have "\<dots> = (map med_id (read_cart F fs))[k := map med_id (read_cart F fs) ! k]"
      using k by simp
    also have "\<dots> = map med_id (read_cart F fs)"
      by (rule list_update_id)
    finally show ?thesis using assms by (simp add: map_med_id_summary)
  qed
qed

subsection \<open>At most one entry for an identifier\<close>

lemma read_cart_bill_files: "read_cart F (fs\<lparr>bill_files := x\<rparr>) = read_cart F fs"
  by (simp add: read_cart_def)

lemma map_med_id_read_write:
  "map med_id (read_cart F (write_cart_from_items F items fs)) = map med_id items"
  by (simp only: read_cart_write_cart map_med_id_reloaded)

lemma distinct_without_nth: "distinct xs \<Longrightarrow> distinct (take k xs @ drop (Suc k) xs)"
proof (induction xs arbitrary: k)
  case Nil
  then show ?case by simp
next
  case (Cons x xs)
  then show ?case
    by (cases k) (auto dest: in_set_takeD in_set_dropD)
qed

lemma distinct_take_drop:
  assumes "distinct (map med_id items)"
  shows "distinct (map med_id (take k items @ drop (Suc k) items))"
proof -
  have "map med_id (take k items @ drop (Suc k) items)
      = take k (map med_id items) @ drop (Suc k) (map med_id items)"
    by (simp add: take_map drop_map)
  with distinct_without_nth [OF assms, of k] show ?thesis by simp
qed

lemma map_med_id_update_quantity:
  "map med_id (items[k := (items ! k)\<lparr>quantity := q\<rparr>]) = map med_id items"
proof (cases "k < length items")
  case True
  have "map med_id (items[k := (items ! k)\<lparr>quantity := q\<rparr>])
      = (map med_id items)[k := map med_id items ! k]"
    using True by (simp add: map_update)
  then show ?thesis by (simp only: list_update_id)
next
  case False
  then have "length items \<le> k" by (simp add: not_less)
  then have "items[k := (items ! k)\<lparr>quantity := q\<rparr>] = items" by (rule list_update_beyond)
  then show ?thesis by (simp only:)
qed

text \<open>What one pass of the deletion loop does to the items and the files.\<close>

lemma delete_request_cases:
  assumes "delete_request F fs items id_in qty_in = (ev, items', fs')"
  shows "(ev \<noteq> Del_removed_all \<and> ev \<noteq> Del_removed_some \<and> items' = items \<and> fs' = fs)
    \<or> ((ev = Del_removed_all \<or> ev = Del_removed_some)
        \<and> fs' = write_cart_from_items F items' fs
        \<and> (\<exists>k. items' = take k items @ drop (Suc k) items
              \<or> (\<exists>q. items' = items[k := (items ! k)\<lparr>quantity := q\<rparr>])))"
proof (cases "py_int (py_strip id_in)")
  case None
  with assms show ?thesis by (auto simp: delete_request_def)
next
  case (Some i)
  show ?thesis
  proof (cases "i = 0")
    case True
    with assms Some show ?thesis by (auto simp: delete_request_def)
  next
    case False
    with assms Some have rq: "remove_quantity F fs items i qty_in = (ev, items', fs')"
      by (simp add: delete_request_def)
    show ?thesis
    proof (cases "index_of_id i items")
      case None
      with rq show ?thesis by (auto simp: remove_quantity_def)
    next
      case k: (Some k)
      show ?thesis
      proof (cases "py_int (py_strip qty_in)")
        case None
        with rq k show ?thesis by (auto simp: remove_quantity_def)
      next
        case (Some a)
        show ?thesis
        proof (cases "quantity (items ! k) \<le> a")
          case True
          with rq k Some show ?thesis
            by (auto simp: remove_quantity_def Let_def)
        next
          case False
          with rq k Some show ?thesis
            by (auto simp: remove_quantity_def Let_def)
        qed
      qed
    qed
  qed
qed

lemma delete_request_distinct:
  assumes "delete_request F fs items id_in qty_in = (ev, items', fs')"
    and "distinct (map med_id items)"
  shows "distinct (map med_id items')"
proof -
  from delete_request_cases [OF assms(1)] consider
    "items' = items" | k where "items' = take k items @ drop (Suc k) items"
    | k q where "items' = items[k := (items ! k)\<lparr>quantity := q\<rparr>]"
    by blast
  then show ?thesis
  proof cases
    case 1
    with assms(2) show ?thesis by simp
  next
    case 2
    with assms(2) show ?thesis by (simp only: distinct_take_drop)
  next
    case 3
    with assms(2) show ?thesis by (simp only: map_med_id_update_quantity)
  qed
qed

lemma delete_loop_distinct:
  assumes "distinct (map med_id items)" "distinct (map med_id (read_cart F fs))"
  shows "distinct (map med_id (read_cart F (delete_loop F fs items answers)))"
  using assms
proof (induction answers arbitrary: fs items)
  case Nil
  then show ?case by simp
next
  case (Cons ans rest)
  obtain id_in qty_in again where ans: "ans = (id_in, qty_in, again)"
    by (cases ans) auto
  obtain ev items' fs' where dr: "delete_request F fs items id_in qty_in = (ev, items', fs')"
    by (cases "delete_request F fs items id_in qty_in") auto
  have di: "distinct (map med_id items')"
    using delete_request_distinct [OF dr Cons.prems(1)] .
  from delete_request_cases [OF dr] show ?case
  proof
    assume a: "ev \<noteq> Del_removed_all \<and> ev \<noteq> Del_removed_some \<and> items' = items \<and> fs' = fs"
    show ?thesis
    proof (cases "ev = Del_cancel")
      case True
      with dr ans Cons.prems show ?thesis by simp
    next
      case False
      with a dr ans have "delete_loop F fs items (ans # rest) = delete_loop F fs items rest"
        by simp
      with Cons.IH [OF Cons.prems] show ?thesis by simp
    qed
  next
    assume b: "(ev = Del_removed_all \<or> ev = Del_removed_some)
        \<and> fs' = write_cart_from_items F items' fs
        \<and> (\<exists>k. items' = take k items @ drop (Suc k) items
              \<or> (\<exists>q. items' = items[k := (items ! k)\<lparr>quantity := q\<rparr>]))"
    then have ev: "ev \<noteq> Del_cancel" "ev = Del_removed_all \<or> ev = Del_removed_some" by auto
    from b have dfs: "distinct (map med_id (read_cart F fs'))"
      using di by (simp only: map_med_id_read_write)
    have "delete_loop F fs items (ans # rest) = fs'
        \<or> delete_loop F fs items (ans # rest) = delete_loop F fs' items' rest"
      using dr ans ev by auto
    then show ?thesis
    proof
      assume "delete_loop F fs items (ans # rest) = fs'"
      with dfs show ?thesis by simp
    next
      assume "delete_loop F fs items (ans # rest) = delete_loop F fs' items' rest"
      with Cons.IH [OF di dfs] show ?thesis by simp
    qed
  qed
qed

lemma distinct_delete_from_cart:
  assumes "distinct (map med_id (read_cart F fs))"
  shows "distinct (map med_id (read_cart F (delete_from_cart F fs answers)))"
proof (cases "read_cart F fs = []")
  case True
  then show ?thesis using assms by (simp add: delete_from_cart_def)
next
  case False
  then have "delete_from_cart F fs answers = delete_loop F fs (read_cart F fs) answers"
    by (simp add: delete_from_cart_def Let_def)
  with delete_loop_distinct [OF assms assms] show ?thesis by simp
qed

lemma bill_process_cart:
  "read_cart F (snd (bill_process F fs name_in address_in phone_in tracking_id)) = read_cart F fs
   \<or> read_cart F (snd (bill_process F fs name_in address_in phone_in tracking_id)) = []"
proof (cases "read_cart F fs = []")
  case True
  then show ?thesis by (simp add: bill_process_def)
next
  case ne: False
  show ?thesis
  proof (cases "bill_total F (read_cart F fs)")
    case None
    with ne show ?thesis by (simp add: bill_process_def)
  next
    case (Some tot)
    obtain ls e where ls: "bill_item_lines F (read_cart F fs) = (ls, e)"
      by (cases "bill_item_lines F (read_cart F fs)") auto
    show ?thesis
    proof (cases e)
      case None
      with ne Some ls show ?thesis
        by (simp add: bill_process_def save_bill_def read_cart_clear_cart)
    next
      case (Some ex)
      with ne \<open>bill_total F (read_cart F fs) = Some tot\<close> ls show ?thesis
        by (simp add: bill_process_def save_bill_def read_cart_bill_files)
    qed
  qed
qed

lemma reachable_distinct:
  "cart_reachable F fs \<Longrightarrow> distinct (map med_id (read_cart F fs))"
proof (induction rule: cart_reachable.induct)
  case (empty fs)
  then show ?case by simp
next
  case (added fs med qty)
  then show ?case by (simp only: distinct_append_to_cart)
next
  case (deleted fs answers)
  then show ?case by (simp only: distinct_delete_from_cart)
next
  case (billed fs name_in address_in phone_in tracking_id)
  with bill_process_cart [of F fs name_in address_in phone_in tracking_id] show ?case
    by auto
qed

lemma add_twice_absent:
  assumes "0 < q1" "0 < q2" "med_id med \<notin> set (map med_id (read_cart F fs))"
  shows "cart_summary (read_cart F (append_to_cart F (append_to_cart F fs med q1) med q2))
           = cart_summary (read_cart F fs) @ [(med_id med, q1 + q2)]"
proof -
  let ?items = "read_cart F fs"
  let ?fs1 = "append_to_cart F fs med q1"
  let ?items1 = "read_cart F ?fs1"
  let ?n = "length ?items"
  have s1: "cart_summary ?items1 = cart_summary ?items @ [(med_id med, q1)]"
    using assms(1,3) by (rule append_summary_absent)
  then have "map fst (cart_summary ?items1) = map fst (cart_summary ?items @ [(med_id med, q1)])"
    by simp
  then have ids: "map med_id ?items1 = map med_id (?items @ [med])"
    by (simp add: map_med_id_summary)
  have "index_of_id (med_id med) ?items1 = index_of_id (med_id med) (?items @ [med])"
    using ids by (rule index_of_id_cong)
  also have "\<dots> = Some ?n"
    using assms(3) by (simp add: index_of_id_snoc)
  finally have k: "index_of_id (med_id med) ?items1 = Some ?n" .
  have len: "length ?items1 = Suc ?n"
    using s1 summary_length [of ?items1] summary_length [of ?items] by simp
  have "snd (cart_summary ?items1 ! ?n) = quantity (?items1 ! ?n)"
    using len by (simp add: summary_nth_quantity)
  then have q: "quantity (?items1 ! ?n) = q1"
    using s1 summary_length [of ?items] by (simp add: nth_append)
  have "cart_summary (read_cart F (append_to_cart F ?fs1 med q2))
      = (cart_summary ?items1)[?n := (med_id med, quantity (?items1 ! ?n) + q2)]"
    using assms(2) k by (rule append_summary_present)
  also have "\<dots> = (cart_summary ?items @ [(med_id med, q1)])
      [length (cart_summary ?items) := (med_id med, q1 + q2)]"
    by (simp add: s1 q summary_length)
  also have "\<dots> = cart_summary ?items @ [(med_id med, q1 + q2)]"
    by simp
  finally show ?thesis .
qed

lemma add_twice_present:
  assumes "0 < q1" "0 < q2" "index_of_id (med_id med) (read_cart F fs) = Some k"
  shows "cart_summary (read_cart F (append_to_cart F (append_to_cart F fs med q1) med q2))
           = (cart_summary (read_cart F fs))
               [k := (med_id med, quantity (read_cart F fs ! k) + q1 + q2)]"
proof -
  let ?items = "read_cart F fs"
  let ?fs1 = "append_to_cart F fs med q1"
  let ?items1 = "read_cart F ?fs1"
  let ?q0 = "quantity (?items ! k)"
  from index_of_id_Some [OF assms(3)] have kl: "k < length ?items"
    and kid: "med_id (?items ! k) = med_id med" by auto
  have s1: "cart_summary ?items1 = (cart_summary ?items)[k := (med_id med, ?q0 + q1)]"
    using assms(1,3) by (rule append_summary_present)
  then have "map fst (cart_summary ?items1)
      = (map fst (cart_summary ?items))[k := med_id med]"
    by (simp add: map_update)
  also have "\<dots> = (map med_id ?items)[k := map med_id ?items ! k]"
    using kl kid by (simp add: map_med_id_summary)
  also have "\<dots> = map med_id ?items"
    by (rule list_update_id)
  finally have ids: "map med_id ?items1 = map med_id ?items"
    by (simp add: map_med_id_summary)
  have k1: "index_of_id (med_id med) ?items1 = Some k"
    using index_of_id_cong [OF ids] assms(3) by simp
  have len: "length ?items1 = length ?items"
    using s1 summary_length [of ?items1] summary_length [of ?items] by simp
  have "snd (cart_summary ?items1 ! k) = quantity (?items1 ! k)"
    using kl len by (simp add: summary_nth_quantity)
  then have q: "quantity (?items1 ! k) = ?q0 + q1"
    using s1 kl summary_length [of ?items] by simp
  have "cart_summary (read_cart F (append_to_cart F ?fs1 med q2))
      = (cart_summary ?items1)[k := (med_id med, quantity (?items1 ! k) + q2)]"
    using assms(2) k1 by (rule append_summary_present)
  also have "\<dots> = (cart_summary ?items)[k := (med_id med, ?q0 + q1 + q2)]"
    by (simp add: s1 q)
  finally show ?thesis .
qed

lemma filter_absent_snoc:
  "i \<notin> set (map fst xs) \<Longrightarrow> filter (\<lambda>e. fst e = i) (xs @ [(i, q)]) = [(i, q)]"
  by (induction xs) auto

lemma read_fresh_files: "read_cart hundredths_ops fresh_files = []"
  by (simp add: fresh_files_def ensure_folders_and_files_def read_cart_def DictReader_def)

subsection \<open>Adding a quantity that is not positive\<close>

text \<open>
  Claim C7. For every cart, every product and every quantity \<open>q \<le> 0\<close>,
  \<^verbatim>\<open>append_to_cart\<close> with quantity \<open>q\<close> returns at once: no file is read or written,
  so the cart file (and every other file) is the same as before, and nothing is raised.
\<close>

theorem append_to_cart_nonpositive_noop:
  "qty \<le> 0 \<Longrightarrow> append_to_cart F fs med qty = fs"
  by (simp add: append_to_cart_def)

theorem append_to_cart_nonpositive_noop_witness:
  "(0::int) \<le> 0 \<and> - 4 \<le> (0::int)
   \<and> append_to_cart hundredths_ops fresh_files paracetamol 0 = fresh_files
   \<and> append_to_cart hundredths_ops fresh_files paracetamol (- 4) = fresh_files"
  using append_to_cart_nonpositive_noop [of 0 hundredths_ops fresh_files paracetamol]
    append_to_cart_nonpositive_noop [of "- 4" hundredths_ops fresh_files paracetamol]
  by simp

subsection \<open>Billing an empty cart\<close>

text \<open>
  Claim C3. When the cart has no entries, \<^verbatim>\<open>bill_process\<close> stops at "Cart is empty!":
  it reports the empty cart, and the files are returned as they were, so no bill file is
  written (in particular none with a zero total) and the cart file is unchanged.
\<close>

theorem empty_cart_checkout_refused:
  "read_cart F fs = [] \<Longrightarrow>
     bill_process F fs name_in address_in phone_in tracking_id = (Bill_cart_empty, fs)"
  by (simp add: bill_process_def)

theorem empty_cart_checkout_refused_witness:
  "read_cart hundredths_ops fresh_files = []
   \<and> bill_process hundredths_ops fresh_files ''Ann'' ''Pune'' ''12345'' ''0123456789''
       = (Bill_cart_empty, fresh_files)"
proof -
  have h: "read_cart hundredths_ops fresh_files = []"
    by (simp add: fresh_files_def ensure_folders_and_files_def read_cart_def DictReader_def)
  show ?thesis
    using h empty_cart_checkout_refused [OF h, of "''Ann''" "''Pune''" "''12345''" "''0123456789''"]
    by simp
qed

subsection \<open>Billing clears the cart\<close>

text \<open>
  Claim C4. When \<^verbatim>\<open>bill_process\<close> saves a bill, the cart was not empty, and afterwards
  the cart file holds the header row only and \<^verbatim>\<open>read_cart\<close> returns no entries.
\<close>

theorem checkout_clears_cart:
  assumes "fst (bill_process F fs name_in address_in phone_in tracking_id) = Bill_saved t path"
  shows "read_cart F fs \<noteq> []
    \<and> cart_file (snd (bill_process F fs name_in address_in phone_in tracking_id)) = Some [cart_header]
    \<and> read_cart F (snd (bill_process F fs name_in address_in phone_in tracking_id)) = []"
proof -
  from bill_process_saved [OF assms] obtain fs1 where
    ne: "read_cart F fs \<noteq> []" and
    eq: "snd (bill_process F fs name_in address_in phone_in tracking_id) = clear_cart fs1"
    by blast
  show ?thesis unfolding eq using ne
    by (simp add: read_cart_clear_cart) (simp add: clear_cart_def)
qed

theorem checkout_clears_cart_witness:
  "fst (bill_process hundredths_ops two_item_cart ''Ann'' ''Pune'' ''12345'' ''0123456789'')
     = Bill_saved 12500 (bill_path ''0123456789'')
   \<and> cart_file (snd (bill_process hundredths_ops two_item_cart ''Ann'' ''Pune'' ''12345'' ''0123456789''))
       = Some [cart_header]
   \<and> read_cart hundredths_ops
        (snd (bill_process hundredths_ops two_item_cart ''Ann'' ''Pune'' ''12345'' ''0123456789'')) = []"
  using bill_two_item_cart checkout_clears_cart [OF bill_two_item_cart] by simp

subsection \<open>The total of a bill\<close>

text \<open>
  Claim C5. When \<^verbatim>\<open>bill_process\<close> saves a bill, there is one subtotal for each entry of
  the cart, in order, each the entry's unit cost times its quantity; the grand total is
  the float sum of these subtotals; and the bill file holds the line "Total:" with that
  total formatted to two decimals. For the cart with two at 20.00 and one at 85.00 the
  subtotals are 40.00 and 85.00 and the line reads 125.00.
\<close>

theorem checkout_total_is_sum:
  assumes "fst (bill_process F fs name_in address_in phone_in tracking_id) = Bill_saved t path"
  shows "\<exists>subs. map (\<lambda>it. float_mul_int F (cost it) (quantity it)) (read_cart F fs) = map Some subs
      \<and> t = float_sum F subs
      \<and> (\<exists>ls. map_of (bill_files (snd (bill_process F fs name_in address_in phone_in tracking_id)))
                 path = Some ls
            \<and> ''Total: '' @ rupee @ format_2f F t \<in> set ls)"
proof -
  from bill_process_saved [OF assms] obtain ls where
    bt: "bill_total F (read_cart F fs) = Some t" and p: "path = bill_path tracking_id" and
    eq: "snd (bill_process F fs name_in address_in phone_in tracking_id)
          = clear_cart (fs\<lparr>bill_files := write_file (bill_path tracking_id)
               (bill_head (py_strip name_in) (py_strip address_in) (py_strip phone_in) @ ls
                  @ bill_foot F t tracking_id)
               (bill_files fs)\<rparr>)"
    by blast
  from bt obtain subs where
    subs: "map (\<lambda>it. float_mul_int F (cost it) (quantity it)) (read_cart F fs) = map Some subs"
    and t: "t = float_sum F subs"
    by (auto simp: bill_total_def those_map_Some)
  have "map_of (bill_files (snd (bill_process F fs name_in address_in phone_in tracking_id))) path
      = Some (bill_head (py_strip name_in) (py_strip address_in) (py_strip phone_in) @ ls
              @ bill_foot F t tracking_id)"
    unfolding eq p by (simp add: clear_cart_def write_file_def)
  moreover have "''Total: '' @ rupee @ format_2f F t \<in> set (bill_foot F t tracking_id)"
    by (simp add: bill_foot_def)
  ultimately show ?thesis using subs t by auto
qed

theorem checkout_total_is_sum_witness:
  "fst (bill_process hundredths_ops two_item_cart ''Ann'' ''Pune'' ''12345'' ''0123456789'')
     = Bill_saved 12500 (bill_path ''0123456789'')
   \<and> map (\<lambda>it. float_mul_int hundredths_ops (cost it) (quantity it))
         (read_cart hundredths_ops two_item_cart) = map Some [4000, 8500]
   \<and> float_sum hundredths_ops [4000, 8500] = 12500
   \<and> (\<exists>ls. map_of (bill_files
                (snd (bill_process hundredths_ops two_item_cart ''Ann'' ''Pune'' ''12345'' ''0123456789'')))
              (bill_path ''0123456789'') = Some ls
          \<and> ''Total: '' @ rupee @ ''125.00'' \<in> set ls)"
  using bill_two_item_cart checkout_total_is_sum [OF bill_two_item_cart]
  by (auto simp: read_two_item_cart hundredths_ops_sel fmt_12500)

subsection \<open>Writing the loaded cart back\<close>

text \<open>
  Claim C9. Writing the cart that \<^verbatim>\<open>read_cart\<close> loaded with
  \<^verbatim>\<open>write_cart_from_items\<close> and loading it again gives the same identifiers and the
  same quantities in the same order. This holds for every cart file.
\<close>

theorem cart_round_trip:
  "cart_summary (read_cart F (write_cart_from_items F (read_cart F fs) fs))
     = cart_summary (read_cart F fs)"
  by (simp add: read_cart_write_cart cart_summary_reloaded)

theorem cart_round_trip_witness:
  "cart_summary (read_cart hundredths_ops
       (write_cart_from_items hundredths_ops (read_cart hundredths_ops two_item_cart) two_item_cart))
     = [(101, 2), (103, 1)]
   \<and> cart_summary (read_cart hundredths_ops two_item_cart) = [(101, 2), (103, 1)]"
  using cart_round_trip [of hundredths_ops two_item_cart]
  by (simp add: read_two_item_cart cart_summary_def)

subsection \<open>Merging into an existing entry\<close>

text \<open>
  Claim C10. When \<^verbatim>\<open>append_to_cart\<close> is called with a positive quantity and the cart
  holds an entry with the product's identifier, the first such entry at position \<open>k\<close>,
  the new cart file is the header followed by the rows of the loaded entries, in the same
  order, except that cell 5 (the quantity) of row \<open>k\<close> holds the old quantity plus the
  one added. The identifier, name, intensity, disease and cost cells of row \<open>k\<close> are
  those of the stored entry; of the product passed in, only the identifier is used. The
  store file and the bill files are unchanged.
\<close>

theorem merge_changes_quantity_only:
  assumes "0 < qty" and "index_of_id (med_id med) (read_cart F fs) = Some k"
  shows "k < length (read_cart F fs) \<and> med_id (read_cart F fs ! k) = med_id med
    \<and> append_to_cart F fs med qty =
        fs\<lparr>cart_file := Some (cart_header #
              (map (cart_row F) (read_cart F fs))
                [k := (cart_row F (read_cart F fs ! k))
                        [5 := str_int (quantity (read_cart F fs ! k) + qty)]])\<rparr>"
proof -
  let ?items = "read_cart F fs"
  from index_of_id_Some [OF assms(2)] have k: "k < length ?items" "med_id (?items ! k) = med_id med"
    by auto
  have "append_to_cart F fs med qty =
      write_cart_from_items F (?items[k := (?items ! k)\<lparr>quantity := quantity (?items ! k) + qty\<rparr>]) fs"
    using assms by (simp add: append_to_cart_def Let_def)
  also have "\<dots> = fs\<lparr>cart_file := Some (cart_header #
              (map (cart_row F) ?items)
                [k := (cart_row F (?items ! k))[5 := str_int (quantity (?items ! k) + qty)]])\<rparr>"
    by (simp add: write_cart_from_items_def map_update cart_row_quantity)
  finally show ?thesis using k by simp
qed

theorem merge_changes_quantity_only_witness:
  "(0::int) < 3 \<and> index_of_id (med_id relabelled) (read_cart hundredths_ops two_item_cart) = Some 0
   \<and> append_to_cart hundredths_ops two_item_cart relabelled 3 =
       two_item_cart\<lparr>cart_file := Some [cart_header,
         [''101'', ''Paracetamol'', ''500mg'', ''Fever'', ''20.00'', ''5''],
         [''103'', ''Azithromycin'', ''250mg'', ''Infection'', ''85.00'', ''1'']]\<rparr>"
proof -
  have h: "index_of_id (med_id relabelled) (read_cart hundredths_ops two_item_cart) = Some 0"
    by (simp add: med_id_examples read_two_item_cart)
  have q: "(0::int) < 3" by simp
  show ?thesis
    using h merge_changes_quantity_only [OF q h]
    by (simp add: rows_two_item_cart)
      (simp add: read_two_item_cart str_int_examples cart_row_def csv_cell_def
        hundredths_fmt_examples hundredths_ops_sel)
qed

subsection \<open>Deleting a quantity\<close>

text \<open>
  Claim C2. In lines 260 to 281 of \<^verbatim>\<open>delete_from_cart\<close>, for an entry found at position
  \<open>k\<close> with identifier \<open>p\<close> and an amount \<open>a\<close> typed by the user: if \<open>a\<close> is at least the
  entry's quantity, the entry is removed, the other entries stay in order, and the
  written cart reads back so (with at most one entry per identifier, \<open>p\<close> is gone);
  if \<open>0 < a\<close> and \<open>a\<close> is less than the quantity, the entry stays with the quantity
  reduced by \<open>a\<close>; if no entry has identifier \<open>p\<close>, "Medicine ID not found in cart" is
  reported, whatever the amount, and neither the items nor the files change.
\<close>

theorem remove_quantity_boundary:
  "(index_of_id p items = Some k \<and> py_int (py_strip qty_in) = Some a \<and> quantity (items ! k) \<le> a \<longrightarrow>
      (\<exists>fs'. remove_quantity F fs items p qty_in
                = (Del_removed_all, take k items @ drop (Suc k) items, fs')
         \<and> cart_summary (read_cart F fs')
              = take k (cart_summary items) @ drop (Suc k) (cart_summary items)
         \<and> (distinct (map med_id items) \<longrightarrow>
               p \<notin> set (map med_id (take k items @ drop (Suc k) items)))))
   \<and> (index_of_id p items = Some k \<and> py_int (py_strip qty_in) = Some a \<and> 0 < a
        \<and> a < quantity (items ! k) \<longrightarrow>
      (\<exists>fs'. remove_quantity F fs items p qty_in
                = (Del_removed_some, items[k := (items ! k)\<lparr>quantity := quantity (items ! k) - a\<rparr>], fs')
         \<and> cart_summary (read_cart F fs') = (cart_summary items)[k := (p, quantity (items ! k) - a)]))
   \<and> (index_of_id p items = None \<longrightarrow>
        remove_quantity F fs items p qty_in = (Del_id_not_found, items, fs))"
proof (intro conjI impI)
  assume h: "index_of_id p items = Some k \<and> py_int (py_strip qty_in) = Some a \<and> quantity (items ! k) \<le> a"
  from h index_of_id_Some [of p items k] have k: "k < length items" "med_id (items ! k) = p"
    by auto
  have "remove_quantity F fs items p qty_in
      = (Del_removed_all, take k items @ drop (Suc k) items,
         write_cart_from_items F (take k items @ drop (Suc k) items) fs)"
    using h by (simp add: remove_quantity_def Let_def)
  moreover have "distinct (map med_id items) \<longrightarrow>
      p \<notin> set (map med_id (take k items @ drop (Suc k) items))"
    using distinct_removed_absent [of items k] k by blast
  ultimately show "\<exists>fs'. remove_quantity F fs items p qty_in
                = (Del_removed_all, take k items @ drop (Suc k) items, fs')
         \<and> cart_summary (read_cart F fs')
              = take k (cart_summary items) @ drop (Suc k) (cart_summary items)
         \<and> (distinct (map med_id items) \<longrightarrow>
               p \<notin> set (map med_id (take k items @ drop (Suc k) items)))"
    by (simp add: read_cart_write_summary cart_summary_take_drop)
next
  assume h: "index_of_id p items = Some k \<and> py_int (py_strip qty_in) = Some a \<and> 0 < a
        \<and> a < quantity (items ! k)"
  from h index_of_id_Some [of p items k] have k: "k < length items" "med_id (items ! k) = p"
    by auto
  have "remove_quantity F fs items p qty_in
      = (Del_removed_some, items[k := (items ! k)\<lparr>quantity := quantity (items ! k) - a\<rparr>],
         write_cart_from_items F (items[k := (items ! k)\<lparr>quantity := quantity (items ! k) - a\<rparr>]) fs)"
    using h by (simp add: remove_quantity_def Let_def)
  then show "\<exists>fs'. remove_quantity F fs items p qty_in
                = (Del_removed_some, items[k := (items ! k)\<lparr>quantity := quantity (items ! k) - a\<rparr>], fs')
         \<and> cart_summary (read_cart F fs') = (cart_summary items)[k := (p, quantity (items ! k) - a)]"
    using k by (simp add: read_cart_write_summary cart_summary_update)
next
  assume "index_of_id p items = None"
  then show "remove_quantity F fs items p qty_in = (Del_id_not_found, items, fs)"
    by (simp add: remove_quantity_def)
qed

theorem remove_quantity_boundary_witness:
  "index_of_id 101 (read_cart hundredths_ops two_item_cart) = Some 0
   \<and> py_int (py_strip ''2'') = Some 2 \<and> py_int (py_strip ''1'') = Some 1
   \<and> fst (remove_quantity hundredths_ops two_item_cart (read_cart hundredths_ops two_item_cart)
            101 ''2'') = Del_removed_all
   \<and> cart_summary (read_cart hundredths_ops (snd (snd
         (remove_quantity hundredths_ops two_item_cart (read_cart hundredths_ops two_item_cart)
            101 ''2'')))) = [(103, 1)]
   \<and> fst (remove_quantity hundredths_ops two_item_cart (read_cart hundredths_ops two_item_cart)
            101 ''1'') = Del_removed_some
   \<and> cart_summary (read_cart hundredths_ops (snd (snd
         (remove_quantity hundredths_ops two_item_cart (read_cart hundredths_ops two_item_cart)
            101 ''1'')))) = [(101, 1), (103, 1)]
   \<and> index_of_id 999 (read_cart hundredths_ops two_item_cart) = None
   \<and> remove_quantity hundredths_ops two_item_cart (read_cart hundredths_ops two_item_cart)
        999 ''1'' = (Del_id_not_found, read_cart hundredths_ops two_item_cart, two_item_cart)"
proof -
  let ?items = "read_cart hundredths_ops two_item_cart"
  have i0: "index_of_id 101 ?items = Some 0" by (simp add: read_two_item_cart)
  have i9: "index_of_id 999 ?items = None" by (simp add: read_two_item_cart)
  have q0: "quantity (?items ! 0) = 2" by (simp add: read_two_item_cart)
  note t2 = remove_quantity_boundary [of 101 ?items 0 "''2''" 2 hundredths_ops two_item_cart]
  note t1 = remove_quantity_boundary [of 101 ?items 0 "''1''" 1 hundredths_ops two_item_cart]
  note t9 = remove_quantity_boundary [of 999 ?items 0 "''1''" 1 hundredths_ops two_item_cart]
  from t2 i0 q0 obtain fs2 where
    a: "remove_quantity hundredths_ops two_item_cart ?items 101 ''2''
          = (Del_removed_all, take 0 ?items @ drop (Suc 0) ?items, fs2)"
       "cart_summary (read_cart hundredths_ops fs2)
          = take 0 (cart_summary ?items) @ drop (Suc 0) (cart_summary ?items)"
    by (auto simp: py_int_strip_examples)
  from t1 i0 q0 obtain fs1 where
    b: "remove_quantity hundredths_ops two_item_cart ?items 101 ''1''
          = (Del_removed_some, ?items[0 := (?items ! 0)\<lparr>quantity := quantity (?items ! 0) - 1\<rparr>], fs1)"
       "cart_summary (read_cart hundredths_ops fs1)
          = (cart_summary ?items)[0 := (101, quantity (?items ! 0) - 1)]"
    by (auto simp: py_int_strip_examples)
  from t9 i9 have
    c: "remove_quantity hundredths_ops two_item_cart ?items 999 ''1''
          = (Del_id_not_found, ?items, two_item_cart)"
    by simp
  show ?thesis
    using i0 i9 by (simp add: a b c py_int_strip_examples summary_two_item_cart q0)
qed

subsection \<open>Deleting an amount that is not positive\<close>

text \<open>
  Claim C6 says that a deletion with an amount of zero or less is reported as an invalid
  quantity and changes nothing. The code does not check the sign of the amount: for the
  cart with two of product 101, the amount \<open>-3\<close> takes the branch "Removed \<open>-3\<close> of", the
  quantity becomes 5 and the cart is written; the amount \<open>0\<close> takes the same branch and
  rewrites the cart unchanged, with no error reported. The prompt of the code asks for an
  amount from 1 to the quantity, and \<^verbatim>\<open>place_order\<close> and \<^verbatim>\<open>append_to_cart\<close> both
  reject quantities below 1.
\<close>

theorem delete_negative_amount_adds:
  "fst (remove_quantity hundredths_ops two_item_cart (read_cart hundredths_ops two_item_cart)
          101 ''-3'') = Del_removed_some
   \<and> cart_summary (read_cart hundredths_ops
        (delete_from_cart hundredths_ops two_item_cart [(''101'', ''-3'', ''n'')]))
       = [(101, 5), (103, 1)]
   \<and> fst (remove_quantity hundredths_ops two_item_cart (read_cart hundredths_ops two_item_cart)
          101 ''0'') = Del_removed_some
   \<and> cart_summary (read_cart hundredths_ops
        (delete_from_cart hundredths_ops two_item_cart [(''101'', ''0'', ''n'')]))
       = [(101, 2), (103, 1)]"
  by (simp add: delete_from_cart_def delete_request_def remove_quantity_def Let_def
      py_int_strip_examples read_two_item_cart read_cart_write_cart reloaded_def cart_summary_def
      answer_n)

subsection \<open>Searching by disease\<close>

text \<open>
  Claim C8. \<^verbatim>\<open>find_by_disease\<close> returns, in the order of the store, exactly the
  products whose disease, stripped of surrounding whitespace and lowered, equals the search
  text stripped and lowered. The approximate matches of \<^verbatim>\<open>place_order\<close> are, in the order
  of the store, exactly the products whose stripped and lowered disease contains the
  stripped and lowered search text as a contiguous substring. \<^verbatim>\<open>place_order\<close> shows
  approximate matches only when the exact search returned nothing, and then adds nothing
  to the cart; when the exact search returns nothing (and the text is not "back") it
  shows them. On the sample store, "fever" finds Paracetamol and Dolo, "Fev" finds nothing
  exactly and the same two products approximately.
\<close>

theorem search_exact_then_approximate:
  "find_by_disease F fs d =
     filter (\<lambda>m. py_lower (py_strip (csv_cell (disease m))) = py_lower (py_strip d)) (load_store F fs)
   \<and> subseq (find_by_disease F fs d) (load_store F fs)
   \<and> find_approximate F fs d =
       filter (\<lambda>m. sublist (py_lower (py_strip d)) (py_lower (py_strip (csv_cell (disease m)))))
         (load_store F fs)
   \<and> subseq (find_approximate F fs d) (load_store F fs)
   \<and> (\<forall>approx fs'. place_order_step F fs d id_in qty_in = (Ord_no_medicines_found approx, fs') \<longrightarrow>
         find_by_disease F fs d = [] \<and> approx = find_approximate F fs d \<and> fs' = fs)
   \<and> (find_by_disease F fs d = [] \<and> py_lower (py_strip d) \<noteq> ''back'' \<longrightarrow>
         place_order_step F fs d id_in qty_in = (Ord_no_medicines_found (find_approximate F fs d), fs))"
proof (intro conjI allI impI)
  show "find_by_disease F fs d =
     filter (\<lambda>m. py_lower (py_strip (csv_cell (disease m))) = py_lower (py_strip d)) (load_store F fs)"
    by (simp add: find_by_disease_def)
  show "subseq (find_by_disease F fs d) (load_store F fs)"
    by (simp add: find_by_disease_def)
  show "find_approximate F fs d =
       filter (\<lambda>m. sublist (py_lower (py_strip d)) (py_lower (py_strip (csv_cell (disease m)))))
         (load_store F fs)"
    by (simp add: find_approximate_def py_in_sublist)
  show "subseq (find_approximate F fs d) (load_store F fs)"
    by (simp add: find_approximate_def)
next
  fix approx fs'
  assume h: "place_order_step F fs d id_in qty_in = (Ord_no_medicines_found approx, fs')"
  show "find_by_disease F fs d = []"
  proof (rule ccontr)
    assume "find_by_disease F fs d \<noteq> []"
    with h show False
      by (simp add: place_order_step_def Let_def find_by_disease_strip
          split: if_splits option.splits)
  qed
  with h show "approx = find_approximate F fs d" "fs' = fs"
    by (auto simp: place_order_step_def Let_def find_by_disease_strip find_approximate_strip
        split: if_splits)
next
  assume "find_by_disease F fs d = [] \<and> py_lower (py_strip d) \<noteq> ''back''"
  then show "place_order_step F fs d id_in qty_in = (Ord_no_medicines_found (find_approximate F fs d), fs)"
    by (simp add: place_order_step_def Let_def find_by_disease_strip find_approximate_strip)
qed

theorem search_exact_then_approximate_witness:
  "store_view (find_by_disease hundredths_ops fresh_files ''fever'') =
     [(101, Some ''Paracetamol'', Some ''Fever''), (102, Some ''Dolo'', Some ''Fever'')]
   \<and> find_by_disease hundredths_ops fresh_files ''Fev'' = []
   \<and> py_lower (py_strip ''Fev'') \<noteq> ''back''
   \<and> store_view (find_approximate hundredths_ops fresh_files ''Fev'') =
     [(101, Some ''Paracetamol'', Some ''Fever''), (102, Some ''Dolo'', Some ''Fever'')]
   \<and> place_order_step hundredths_ops fresh_files ''Fev'' ''101'' ''1''
       = (Ord_no_medicines_found (find_approximate hundredths_ops fresh_files ''Fev''), fresh_files)"
proof -
  have e: "find_by_disease hundredths_ops fresh_files ''Fev'' = []"
    using view_exact_fev by (simp add: store_view_def)
  have b: "py_lower (py_strip ''Fev'') \<noteq> ''back''"
    by (simp add: lowered_diseases)
  show ?thesis
    using e b view_exact_fever view_approx_fev
      search_exact_then_approximate [of hundredths_ops fresh_files "''Fev''" "''101''" "''1''"]
    by simp
qed

subsection \<open>Adding the same product twice\<close>

text \<open>
  Claim C1, as amended. Let \<^verbatim>\<open>append_to_cart\<close> be called with a positive quantity
  \<open>q1\<close> and then with a positive quantity \<open>q2\<close> for the same product. If the cart held
  no entry with the product's identifier, the identifiers and quantities of the cart
  afterwards are those before, in order, followed by one entry for the identifier with
  quantity \<open>q1 + q2\<close>, and that is the only entry for the identifier. If the cart held an
  entry for the identifier, the first at position \<open>k\<close>, the cart afterwards has the same
  identifiers in the same order, and the quantity at position \<open>k\<close> is the one before
  plus \<open>q1 + q2\<close>; no row is added. Every state of the files that the program reaches
  from an empty cart by adding, deleting and billing holds at most one entry for each
  identifier.
\<close>

theorem add_twice_merges:
  assumes "0 < q1" "0 < q2"
  shows "(med_id med \<notin> set (map med_id (read_cart F fs)) \<longrightarrow>
            cart_summary (read_cart F (append_to_cart F (append_to_cart F fs med q1) med q2))
              = cart_summary (read_cart F fs) @ [(med_id med, q1 + q2)]
          \<and> filter (\<lambda>e. fst e = med_id med)
               (cart_summary (read_cart F (append_to_cart F (append_to_cart F fs med q1) med q2)))
              = [(med_id med, q1 + q2)])
    \<and> (index_of_id (med_id med) (read_cart F fs) = Some k \<longrightarrow>
            cart_summary (read_cart F (append_to_cart F (append_to_cart F fs med q1) med q2))
              = (cart_summary (read_cart F fs))
                  [k := (med_id med, quantity (read_cart F fs ! k) + q1 + q2)])
    \<and> (cart_reachable F fs \<longrightarrow> distinct (map med_id (read_cart F fs)))"
proof (intro conjI impI)
  assume a: "med_id med \<notin> set (map med_id (read_cart F fs))"
  show s: "cart_summary (read_cart F (append_to_cart F (append_to_cart F fs med q1) med q2))
              = cart_summary (read_cart F fs) @ [(med_id med, q1 + q2)]"
    using assms a by (rule add_twice_absent)
  from a have "med_id med \<notin> set (map fst (cart_summary (read_cart F fs)))"
    by (simp add: map_med_id_summary)
  then show "filter (\<lambda>e. fst e = med_id med)
               (cart_summary (read_cart F (append_to_cart F (append_to_cart F fs med q1) med q2)))
              = [(med_id med, q1 + q2)]"
    unfolding s by (rule filter_absent_snoc)
next
  assume "index_of_id (med_id med) (read_cart F fs) = Some k"
  with assms show "cart_summary (read_cart F (append_to_cart F (append_to_cart F fs med q1) med q2))
              = (cart_summary (read_cart F fs))
                  [k := (med_id med, quantity (read_cart F fs ! k) + q1 + q2)]"
    by (rule add_twice_present)
next
  assume "cart_reachable F fs"
  then show "distinct (map med_id (read_cart F fs))" by (rule reachable_distinct)
qed

theorem add_twice_merges_witness:
  "(0::int) < 1 \<and> (0::int) < 2
   \<and> med_id paracetamol \<notin> set (map med_id (read_cart hundredths_ops fresh_files))
   \<and> cart_summary (read_cart hundredths_ops
        (append_to_cart hundredths_ops (append_to_cart hundredths_ops fresh_files paracetamol 1)
           paracetamol 2)) = [(101, 3)]
   \<and> index_of_id (med_id paracetamol) (read_cart hundredths_ops two_item_cart) = Some 0
   \<and> cart_summary (read_cart hundredths_ops
        (append_to_cart hundredths_ops (append_to_cart hundredths_ops two_item_cart paracetamol 1)
           paracetamol 2)) = [(101, 5), (103, 1)]
   \<and> cart_reachable hundredths_ops (append_to_cart hundredths_ops fresh_files paracetamol 1)
   \<and> distinct (map med_id (read_cart hundredths_ops
        (append_to_cart hundredths_ops fresh_files paracetamol 1)))"
proof -
  have q: "(0::int) < 1" "(0::int) < 2" by simp_all
  have a: "med_id paracetamol \<notin> set (map med_id (read_cart hundredths_ops fresh_files))"
    by (simp add: read_fresh_files)
  have p: "index_of_id (med_id paracetamol) (read_cart hundredths_ops two_item_cart) = Some 0"
    by (simp add: med_id_examples read_two_item_cart)
  have r: "cart_reachable hundredths_ops (append_to_cart hundredths_ops fresh_files paracetamol 1)"
    by (rule cart_reachable.added) (rule cart_reachable.empty, rule read_fresh_files)
  note t1 = add_twice_merges [OF q, of paracetamol hundredths_ops fresh_files 0]
  note t2 = add_twice_merges [OF q, of paracetamol hundredths_ops two_item_cart 0]
  note t3 = add_twice_merges [OF q, of paracetamol hundredths_ops
      "append_to_cart hundredths_ops fresh_files paracetamol 1" 0]
  from t1 a have c1: "cart_summary (read_cart hundredths_ops
        (append_to_cart hundredths_ops (append_to_cart hundredths_ops fresh_files paracetamol 1)
           paracetamol 2)) = cart_summary (read_cart hundredths_ops fresh_files) @ [(med_id paracetamol, 1 + 2)]"
    by blast
  from t2 p have c2: "cart_summary (read_cart hundredths_ops
        (append_to_cart hundredths_ops (append_to_cart hundredths_ops two_item_cart paracetamol 1)
           paracetamol 2)) = (cart_summary (read_cart hundredths_ops two_item_cart))
              [0 := (med_id paracetamol, quantity (read_cart hundredths_ops two_item_cart ! 0) + 1 + 2)]"
    by blast
  from t3 r have c3: "distinct (map med_id (read_cart hundredths_ops
        (append_to_cart hundredths_ops fresh_files paracetamol 1)))"
    by blast
  show ?thesis
    using a p r c3
    by (simp add: c1 c2 read_fresh_files summary_two_item_cart med_id_examples)
      (simp add: read_two_item_cart cart_summary_def)
qed

text \<open>
  Claim C1 for every cart: it promises the quantity \<open>q1 + q2\<close> whatever the cart held.
  On the cart that holds two of product 101, adding one and then two of the product
  leaves a single entry with quantity 5, not 3.
\<close>

theorem add_twice_to_held_product:
  "cart_summary (read_cart hundredths_ops two_item_cart) = [(101, 2), (103, 1)]
   \<and> med_id paracetamol = 101
   \<and> cart_summary (read_cart hundredths_ops
        (append_to_cart hundredths_ops (append_to_cart hundredths_ops two_item_cart paracetamol 1)
           paracetamol 2)) = [(101, 5), (103, 1)]
   \<and> (5::int) \<noteq> 1 + 2"
proof -
  have p: "index_of_id (med_id paracetamol) (read_cart hundredths_ops two_item_cart) = Some 0"
    by (simp add: med_id_examples read_two_item_cart)
  have "cart_summary (read_cart hundredths_ops
        (append_to_cart hundredths_ops (append_to_cart hundredths_ops two_item_cart paracetamol 1)
           paracetamol 2)) = (cart_summary (read_cart hundredths_ops two_item_cart))
              [0 := (med_id paracetamol, quantity (read_cart hundredths_ops two_item_cart ! 0) + 1 + 2)]"
    using add_twice_present [of 1 2 paracetamol hundredths_ops two_item_cart 0] p by simp
  then show ?thesis
    by (simp add: summary_two_item_cart med_id_examples) (simp add: read_two_item_cart)
qed

end
